theory Spec2Isabelle
  imports Complex_Main "HOL-Library.AList" "HOL-Library.Char_ord" "HOL-Library.List_Lexorder"
    "HOL-Library.Sublist"
begin

section \<open>Go strings\<close>

text \<open>
  A Go string is a sequence of bytes: \<open>string\<close> (a \<open>char list\<close>, each \<open>char\<close> one byte).
  The functions of package \<open>strings\<close> that the program calls are written out on bytes;
  where they read the bytes as UTF-8, so do these.
\<close>

fun HasPrefix :: "string \<Rightarrow> string \<Rightarrow> bool" where
  "HasPrefix s [] = True"
| "HasPrefix [] (p # ps) = False"
| "HasPrefix (c # cs) (p # ps) = (c = p \<and> HasPrefix cs ps)"

text \<open>\<open>strings.Index\<close>: the position of the first instance of \<open>sub\<close>, or \<open>-1\<close>.\<close>

fun index_from :: "nat \<Rightarrow> string \<Rightarrow> string \<Rightarrow> int" where
  "index_from i [] sub = (if sub = [] then int i else - 1)"
| "index_from i (c # cs) sub =
     (if HasPrefix (c # cs) sub then int i else index_from (Suc i) cs sub)"

definition Index :: "string \<Rightarrow> string \<Rightarrow> int" where
  "Index s sub = index_from 0 s sub"

definition Contains :: "string \<Rightarrow> string \<Rightarrow> bool" where
  "Contains s sub = (0 \<le> Index s sub)"

text \<open>The number of positions of \<open>s\<close> at which \<open>sub\<close> starts.\<close>

fun occurrences :: "string \<Rightarrow> string \<Rightarrow> nat" where
  "occurrences [] sub = (if sub = [] then 1 else 0)"
| "occurrences (c # cs) sub = (if HasPrefix (c # cs) sub then 1 else 0) + occurrences cs sub"

text \<open>
  \<open>unicode.IsSpace\<close> holds of the code points with Unicode's White_Space property:
  U+0009 to U+000D, U+0020, U+0085, U+00A0, U+1680, U+2000 to U+200A, U+2028, U+2029,
  U+202F, U+205F and U+3000. Here they are by their UTF-8 encodings: decoding is
  unambiguous and an ill-formed sequence decodes to U+FFFD, which is not white space, so
  a string starts (ends) with a white-space code point exactly when it starts (ends)
  with one of these byte sequences.
\<close>

definition white_space :: "string list" where
  "white_space =
     [[CHR 0x09], [CHR 0x0A], [CHR 0x0B], [CHR 0x0C], [CHR 0x0D], [CHR 0x20],
      [CHR 0xC2, CHR 0x85], [CHR 0xC2, CHR 0xA0],
      [CHR 0xE1, CHR 0x9A, CHR 0x80],
      [CHR 0xE2, CHR 0x80, CHR 0x80], [CHR 0xE2, CHR 0x80, CHR 0x81],
      [CHR 0xE2, CHR 0x80, CHR 0x82], [CHR 0xE2, CHR 0x80, CHR 0x83],
      [CHR 0xE2, CHR 0x80, CHR 0x84], [CHR 0xE2, CHR 0x80, CHR 0x85],
      [CHR 0xE2, CHR 0x80, CHR 0x86], [CHR 0xE2, CHR 0x80, CHR 0x87],
      [CHR 0xE2, CHR 0x80, CHR 0x88], [CHR 0xE2, CHR 0x80, CHR 0x89],
      [CHR 0xE2, CHR 0x80, CHR 0x8A],
      [CHR 0xE2, CHR 0x80, CHR 0xA8], [CHR 0xE2, CHR 0x80, CHR 0xA9],
      [CHR 0xE2, CHR 0x80, CHR 0xAF],
      [CHR 0xE2, CHR 0x81, CHR 0x9F],
      [CHR 0xE3, CHR 0x80, CHR 0x80]]"

text \<open>The string without the members of \<open>rs\<close> it starts with, one after the other.\<close>

fun trim_runes :: "string list \<Rightarrow> string \<Rightarrow> string" where
  "trim_runes rs [] = []"
| "trim_runes rs (c # cs) =
     (case find (\<lambda>r. r \<noteq> [] \<and> HasPrefix (c # cs) r) rs of
        None \<Rightarrow> c # cs
      | Some r \<Rightarrow> trim_runes rs (drop (length r - 1) cs))"

text \<open>
  \<open>strings.TrimSpace\<close>: the leading white space goes, then the trailing white space of
  what is left.
\<close>

definition TrimSpace :: "string \<Rightarrow> string" where
  "TrimSpace s = rev (trim_runes (map rev white_space) (rev (trim_runes white_space s)))"

section \<open>Errors\<close>

text \<open>
  The error numbers the file system answers with, and Go's \<open>error\<close> values: the
  sentinel errors of the packages \<open>backup\<close>, \<open>reset\<close> and \<open>softreset\<close>, an
  \<open>*os.PathError\<close> around an error number, \<open>io.EOF\<close>, an \<open>errors.New\<close> text, an error
  wrapped by \<open>fmt.Errorf("...: %w", err)\<close>, and the error of a finished command.
\<close>

datatype errno = ENOENT | ENOTDIR | EISDIR | EEXIST | ENOTEMPTY | EBUSY

datatype error =
    ErrBackupNotFound
  | ErrBackupExists
  | ErrInvalidBackupName
  | ErrNoTokenToBackup
  | ErrNotWindows
  | ErrRequiresAdmin
  | ErrBackupRequired
  | ErrCustomIDNotFound
  | ErrExtensionNotFound
  | ErrPatchBackupNotFound
  | PathError errno
  | EOF
  | ErrorString string
  | Wrapped string error
  | ExitError string

text \<open>\<open>os.IsNotExist\<close>: the error is a path error for a missing entry.\<close>

fun IsNotExist :: "error \<Rightarrow> bool" where
  "IsNotExist (PathError e) = (e = ENOENT)"
| "IsNotExist _ = False"

section \<open>The file system\<close>

text \<open>
  The file system is a tree: a node is a regular file with its bytes or a directory with
  its entries, and a path is the list of the names from the root. A directory's entries
  are an association list read through \<open>map_of\<close>. An operation fails exactly when the
  shape of the tree makes the system call fail (a missing entry, a file where a
  directory is needed, a directory where a file is needed); permissions and device
  errors are not part of the model.
\<close>

type_synonym path = "string list"

datatype node = File string | Dir "(string \<times> node) list"

fun IsDir :: "node \<Rightarrow> bool" where
  "IsDir (Dir es) = True"
| "IsDir (File d) = False"

fun lookup :: "path \<Rightarrow> node \<Rightarrow> errno + node" where
  "lookup [] n = Inr n"
| "lookup (c # cs) (File d) = Inl ENOTDIR"
| "lookup (c # cs) (Dir es) =
     (case map_of es c of None \<Rightarrow> Inl ENOENT | Some n \<Rightarrow> lookup cs n)"

text \<open>The node at a path, if there is one.\<close>

definition entry :: "path \<Rightarrow> node \<Rightarrow> node option" where
  "entry p fs = (case lookup p fs of Inl e \<Rightarrow> None | Inr n \<Rightarrow> Some n)"

text \<open>
  \<open>alter p f\<close> replaces the entry at \<open>p\<close> by what \<open>f\<close> makes of it (\<open>None\<close>: no entry),
  under the directories that lead to \<open>p\<close>, which must exist. The root itself cannot be
  removed.
\<close>

fun alter :: "path \<Rightarrow> (node option \<Rightarrow> errno + node option) \<Rightarrow> node \<Rightarrow> errno + node" where
  "alter [] f n =
     (case f (Some n) of
        Inl e \<Rightarrow> Inl e
      | Inr None \<Rightarrow> Inl EBUSY
      | Inr (Some n') \<Rightarrow> Inr n')"
| "alter (c # cs) f (File d) = Inl ENOTDIR"
| "alter (c # cs) f (Dir es) =
     (if cs = [] then
        (case f (map_of es c) of
           Inl e \<Rightarrow> Inl e
         | Inr None \<Rightarrow> Inr (Dir (AList.delete c es))
         | Inr (Some n') \<Rightarrow> Inr (Dir (AList.update c n' es)))
      else
        (case map_of es c of
           None \<Rightarrow> Inl ENOENT
         | Some n \<Rightarrow>
             (case alter cs f n of
                Inl e \<Rightarrow> Inl e
              | Inr n' \<Rightarrow> Inr (Dir (AList.update c n' es)))))"

text \<open>The result of a system call that changes the tree: the error, if any, and the tree.\<close>

definition run :: "node \<Rightarrow> errno + node \<Rightarrow> errno option \<times> node" where
  "run fs r = (case r of Inl e \<Rightarrow> (Some e, fs) | Inr fs' \<Rightarrow> (None, fs'))"

definition Stat :: "node \<Rightarrow> path \<Rightarrow> errno + node" where
  "Stat fs p = lookup p fs"

definition ReadFile :: "node \<Rightarrow> path \<Rightarrow> errno + string" where
  "ReadFile fs p =
     (case lookup p fs of
        Inl e \<Rightarrow> Inl e
      | Inr (Dir es) \<Rightarrow> Inl EISDIR
      | Inr (File d) \<Rightarrow> Inr d)"

text \<open>\<open>os.WriteFile\<close> and \<open>os.Create\<close> open with \<open>O_CREATE|O_TRUNC\<close>.\<close>

definition put_file :: "string \<Rightarrow> node option \<Rightarrow> errno + node option" where
  "put_file d old = (case old of Some (Dir es) \<Rightarrow> Inl EISDIR | _ \<Rightarrow> Inr (Some (File d)))"

definition WriteFile :: "node \<Rightarrow> path \<Rightarrow> string \<Rightarrow> errno option \<times> node" where
  "WriteFile fs p d = run fs (alter p (put_file d) fs)"

definition Create :: "node \<Rightarrow> path \<Rightarrow> errno option \<times> node" where
  "Create fs p = WriteFile fs p []"

text \<open>
  A name is a file name when it is not empty, not \<open>.\<close> or \<open>..\<close> and has no separator.
  \<open>os.ReadDir\<close> lists the entries of a directory sorted by name, each with whether it
  is a directory; keys of the association list that are no file names are no entries.
\<close>

definition valid_name :: "string \<Rightarrow> bool" where
  "valid_name c = (c \<noteq> [] \<and> c \<noteq> ''.'' \<and> c \<noteq> ''..'' \<and> CHR ''/'' \<notin> set c)"

definition entry_names :: "(string \<times> node) list \<Rightarrow> string list" where
  "entry_names es = sort (remdups (filter valid_name (map fst es)))"

definition entry_is_dir :: "(string \<times> node) list \<Rightarrow> string \<Rightarrow> bool" where
  "entry_is_dir es c = (case map_of es c of None \<Rightarrow> False | Some n \<Rightarrow> IsDir n)"

definition ReadDir :: "node \<Rightarrow> path \<Rightarrow> errno + (string \<times> bool) list" where
  "ReadDir fs p =
     (case lookup p fs of
        Inl e \<Rightarrow> Inl e
      | Inr (File d) \<Rightarrow> Inl ENOTDIR
      | Inr (Dir es) \<Rightarrow> Inr (map (\<lambda>c. (c, entry_is_dir es c)) (entry_names es)))"

text \<open>\<open>os.Remove\<close>: a file, or a directory without entries.\<close>

definition unlink :: "node option \<Rightarrow> errno + node option" where
  "unlink old =
     (case old of
        None \<Rightarrow> Inl ENOENT
      | Some (File d) \<Rightarrow> Inr None
      | Some (Dir es) \<Rightarrow> if entry_names es = [] then Inr None else Inl ENOTEMPTY)"

definition Remove :: "node \<Rightarrow> path \<Rightarrow> errno option \<times> node" where
  "Remove fs p = run fs (alter p unlink fs)"

text \<open>
  \<open>os.RemoveAll\<close> removes the entry and everything below it, and succeeds when there is
  no such entry.
\<close>

definition RemoveAll :: "node \<Rightarrow> path \<Rightarrow> errno option \<times> node" where
  "RemoveAll fs p =
     (case lookup p fs of
        Inl e \<Rightarrow> (if e = ENOENT then (None, fs) else (Some e, fs))
      | Inr n \<Rightarrow> run fs (alter p (\<lambda>old. Inr None) fs))"

text \<open>
  \<open>os.MkdirAll\<close> creates the directory and the missing directories above it; it fails,
  before it creates anything, when a file stands on the way.
\<close>

fun mkdir_all :: "path \<Rightarrow> node \<Rightarrow> errno + node" where
  "mkdir_all p (File d) = Inl ENOTDIR"
| "mkdir_all [] (Dir es) = Inr (Dir es)"
| "mkdir_all (c # cs) (Dir es) =
     (case mkdir_all cs (case map_of es c of None \<Rightarrow> Dir [] | Some n \<Rightarrow> n) of
        Inl e \<Rightarrow> Inl e
      | Inr n' \<Rightarrow> Inr (Dir (AList.update c n' es)))"

definition MkdirAll :: "node \<Rightarrow> path \<Rightarrow> errno option \<times> node" where
  "MkdirAll fs p = run fs (mkdir_all p fs)"

text \<open>
  \<open>filepath.Join(p, s)\<close> for an absolute path \<open>p\<close>: the elements of \<open>s\<close> between
  separators are appended, an empty element and \<open>.\<close> are dropped and \<open>..\<close> goes up.
\<close>

fun split_sep :: "string \<Rightarrow> string list" where
  "split_sep [] = [[]]"
| "split_sep (c # cs) =
     (if c = CHR ''/'' then [] # split_sep cs
      else (case split_sep cs of [] \<Rightarrow> [[c]] | w # ws \<Rightarrow> (c # w) # ws))"

definition join_step :: "path \<Rightarrow> string \<Rightarrow> path" where
  "join_step p c = (if c = [] \<or> c = ''.'' then p else if c = ''..'' then butlast p else p @ [c])"

definition Join :: "path \<Rightarrow> string \<Rightarrow> path" where
  "Join p s = foldl join_step p (split_sep s)"

section \<open>The environment\<close>

text \<open>
  What the program asks of its platform and of the collaborators outside the components
  studied here is a parameter: the operating system's name, the paths the path resolver
  (package \<open>kiropath\<close>) and the standard library answer with, the identifier provider's
  raw machine identifier, the clock, the random identifier drawn, the elevated \<open>reg\<close>
  command, and the functions of \<open>encoding/json\<close> and \<open>time\<close> at the types the program
  uses them at.
\<close>

text \<open>
  A value \<open>encoding/json\<close> decodes into an \<open>interface{}\<close>: \<open>nil\<close>, a \<open>bool\<close>, a
  \<open>float64\<close> (as the number it stands for), a \<open>string\<close>, a slice or a map.
\<close>

datatype jvalue =
    JNull
  | JBool bool
  | JNumber real
  | JString string
  | JArray "jvalue list"
  | JObject "(string \<times> jvalue) list"

record MachineIDBackup =
  MachineID :: string
  BackupTime :: string

text \<open>A \<open>time.Time\<close>, as the seconds since its zero value.\<close>

type_synonym Time = int

record env =
  GOOS :: string
  Executable :: "error + path"
  UserHomeDir :: "error + path"
  GetKiroInstallPath :: "error + path"
  GetKiroHomePath :: "error + path"
  GetRawMachineId :: "error + string"
  Now_RFC3339 :: string
  uuid_New :: string
  reg_add :: "string \<Rightarrow> string \<times> error option"
  Unmarshal_MachineIDBackup :: "string \<Rightarrow> error + MachineIDBackup"
  MarshalIndent_MachineIDBackup :: "MachineIDBackup \<Rightarrow> error + string"
  Unmarshal_map :: "string \<Rightarrow> error + (string \<rightharpoonup> jvalue) option"
  MarshalIndent_map :: "(string \<rightharpoonup> jvalue) \<Rightarrow> error + string"
  time_Parse_RFC3339 :: "string \<Rightarrow> error + Time"
  unicode_ToLower :: "string \<Rightarrow> string"
  unicode_EqualFold :: "string \<Rightarrow> string \<Rightarrow> bool"

text \<open>
  \<open>strings.ToLower\<close> and \<open>strings.EqualFold\<close> work on the bytes as long as these are
  ASCII, and from the first byte from 0x80 on by the tables of package \<open>unicode\<close> (the
  case mapping, the simple case folding). The tables are the environment's:
  \<open>unicode_ToLower\<close> is what \<open>ToLower\<close> answers on a string that is not all ASCII, and
  \<open>unicode_EqualFold\<close> what \<open>EqualFold\<close> answers on two strings that agree up to case
  so far and of which one goes on with a byte from 0x80 on.
\<close>

definition toLower :: "char \<Rightarrow> char" where
  "toLower c =
     (case map_of (zip ''ABCDEFGHIJKLMNOPQRSTUVWXYZ'' ''abcdefghijklmnopqrstuvwxyz'') c of
        None \<Rightarrow> c
      | Some l \<Rightarrow> l)"

definition ToLower :: "env \<Rightarrow> string \<Rightarrow> string" where
  "ToLower E s =
     (if list_all (\<lambda>c. c < CHR 0x80) s then map toLower s else unicode_ToLower E s)"

fun EqualFold :: "env \<Rightarrow> string \<Rightarrow> string \<Rightarrow> bool" where
  "EqualFold E [] t = (t = [])"
| "EqualFold E (sr # s) [] = False"
| "EqualFold E (sr # s) (tr # t) =
     (if CHR 0x80 \<le> sr \<or> CHR 0x80 \<le> tr then unicode_EqualFold E (sr # s) (tr # t)
      else if tr = sr then EqualFold E s t
      else if CHR ''A'' \<le> min sr tr \<and> min sr tr \<le> CHR ''Z''
              \<and> of_char (max sr tr) = of_char (min sr tr) + (32::nat)
      then EqualFold E s t
      else False)"

text \<open>A path as the string the program holds.\<close>

definition path_string :: "path \<Rightarrow> string" where
  "path_string p = (if p = [] then ''/'' else concat (map (\<lambda>c. ''/'' @ c) p))"

text \<open>The path whose string is that of \<open>p\<close> followed by \<open>s\<close> (\<open>s\<close> without separator).\<close>

definition add_suffix :: "path \<Rightarrow> string \<Rightarrow> path" where
  "add_suffix p s = (if p = [] then [s] else butlast p @ [last p @ s])"

text \<open>
  \<open>os.Open\<close> answers with the open file; \<open>Read\<close> on it gives at most \<open>n\<close> bytes, \<open>io.EOF\<close>
  at the end of the file, and fails on a directory.
\<close>

definition Open :: "node \<Rightarrow> path \<Rightarrow> errno + node" where
  "Open fs p = lookup p fs"

fun Read :: "node \<Rightarrow> nat \<Rightarrow> string \<times> error option" where
  "Read (File d) n = (if d = [] then ([], Some EOF) else (take n d, None))"
| "Read (Dir es) n = ([], Some (PathError EISDIR))"

section \<open>Package softreset: the patch engine\<close>

definition PatchMarker :: string where
  "PatchMarker = ''/* KIRO_MANAGER_PATCH_V3 */''"

definition PatchEndMarker :: string where
  "PatchEndMarker = ''/* END_KIRO_MANAGER_PATCH */''"

definition BackupSuffix :: string where
  "BackupSuffix = ''.kiro-manager-backup''"

definition OldPatchMarker :: string where
  "OldPatchMarker = ''/* KIRO_MANAGER_PATCH_V1 */''"

definition OldPatchMarkerV2 :: string where
  "OldPatchMarkerV2 = ''/* KIRO_MANAGER_PATCH_V2 */''"

text \<open>The injected JavaScript, line by line; every line ends with a newline.\<close>

definition patchLines :: "string list" where
  "patchLines = [
     ''/* KIRO_MANAGER_PATCH_V3 */'',
     ''(function() {'',
     ''  const fs = require('' @ [CHR 0x27] @ ''fs'' @ [CHR 0x27] @ '');'',
     ''  const path = require('' @ [CHR 0x27] @ ''path'' @ [CHR 0x27] @ '');'',
     ''  const os = require('' @ [CHR 0x27] @ ''os'' @ [CHR 0x27] @ '');'',
     ''  const childProcess = require('' @ [CHR 0x27] @ ''child_process'' @ [CHR 0x27] @ '');'',
     ''  const customIdPath = path.join(os.homedir(), '' @ [CHR 0x27] @ ''.kiro'' @ [CHR 0x27] @ '', '' @ [CHR 0x27] @ ''custom-machine-id'' @ [CHR 0x27] @ '');'',
     ''  let customMachineId = null;'',
     ''  try {'',
     ''    customMachineId = fs.readFileSync(customIdPath, '' @ [CHR 0x27] @ ''utf8'' @ [CHR 0x27] @ '').trim();'',
     ''  } catch {}'',
     ''  if (!customMachineId) return;'',
     [],
     ''  // 1. '' @ [CHR 0xE6, CHR 0x94, CHR 0x94, CHR 0xE6, CHR 0x88, CHR 0xAA] @ '' Module._load'' @ [CHR 0xEF, CHR 0xBC, CHR 0x88] @ ''vscode.env.machineId '' @ [CHR 0xE5, CHR 0x92, CHR 0x8C] @ '' node-machine-id'' @ [CHR 0xEF, CHR 0xBC, CHR 0x89],
     ''  const Module = require('' @ [CHR 0x27] @ ''module'' @ [CHR 0x27] @ '');'',
     ''  const originalLoad = Module._load;'',
     ''  Module._load = function(request, parent, isMain) {'',
     ''    const mod = originalLoad.call(this, request, parent, isMain);'',
     ''    if (request === '' @ [CHR 0x27] @ ''vscode'' @ [CHR 0x27] @ '') {'',
     ''      return new Proxy(mod, {'',
     ''        get(target, prop) {'',
     ''          if (prop === '' @ [CHR 0x27] @ ''env'' @ [CHR 0x27] @ '') {'',
     ''            return new Proxy(target.env, {'',
     ''              get(envTarget, envProp) {'',
     ''                if (envProp === '' @ [CHR 0x27] @ ''machineId'' @ [CHR 0x27] @ '') return customMachineId;'',
     ''                return envTarget[envProp];'',
     ''              }'',
     ''            });'',
     ''          }'',
     ''          return target[prop];'',
     ''        }'',
     ''      });'',
     ''    }'',
     ''    if (mod && typeof mod === '' @ [CHR 0x27] @ ''object'' @ [CHR 0x27] @ '' && (typeof mod.machineIdSync === '' @ [CHR 0x27] @ ''function'' @ [CHR 0x27] @ '' || typeof mod.machineId === '' @ [CHR 0x27] @ ''function'' @ [CHR 0x27] @ '')) {'',
     ''      return new Proxy(mod, {'',
     ''        get(target, prop) {'',
     ''          if (prop === '' @ [CHR 0x27] @ ''machineIdSync'' @ [CHR 0x27] @ '') return () => customMachineId;'',
     ''          if (prop === '' @ [CHR 0x27] @ ''machineId'' @ [CHR 0x27] @ '') return () => Promise.resolve(customMachineId);'',
     ''          return target[prop];'',
     ''        }'',
     ''      });'',
     ''    }'',
     ''    return mod;'',
     ''  };'',
     [],
     ''  // 2. '' @ [CHR 0xE6, CHR 0x94, CHR 0x94, CHR 0xE6, CHR 0x88, CHR 0xAA] @ '' child_process'' @ [CHR 0xEF, CHR 0xBC, CHR 0x88, CHR 0xE9, CHR 0x87, CHR 0x9D, CHR 0xE5, CHR 0xB0, CHR 0x8D] @ '' @opentelemetry '' @ [CHR 0xE5, CHR 0x92, CHR 0x8C, CHR 0xE5, CHR 0x85, CHR 0xB6, CHR 0xE4, CHR 0xBB, CHR 0x96, CHR 0xE7, CHR 0x9B, CHR 0xB4, CHR 0xE6, CHR 0x8E, CHR 0xA5, CHR 0xE5, CHR 0x9F, CHR 0xB7, CHR 0xE8, CHR 0xA1, CHR 0x8C, CHR 0xE5, CHR 0x91, CHR 0xBD, CHR 0xE4, CHR 0xBB, CHR 0xA4, CHR 0xE7, CHR 0x9A, CHR 0x84, CHR 0xE6, CHR 0xA8, CHR 0xA1, CHR 0xE7, CHR 0xB5, CHR 0x84, CHR 0xEF, CHR 0xBC, CHR 0x89],
     ''  const machineIdPatterns = ['',
     ''    '' @ [CHR 0x27] @ ''REG.exe QUERY'' @ [CHR 0x27] @ '', '' @ [CHR 0x27] @ ''REG QUERY'' @ [CHR 0x27] @ '', '' @ [CHR 0x27] @ ''MachineGuid'' @ [CHR 0x27] @ '','',
     ''    '' @ [CHR 0x27] @ ''ioreg'' @ [CHR 0x27] @ '', '' @ [CHR 0x27] @ ''IOPlatformExpertDevice'' @ [CHR 0x27] @ '','',
     ''    '' @ [CHR 0x27] @ ''kenv'' @ [CHR 0x27] @ '', '' @ [CHR 0x27] @ ''smbios.system.uuid'' @ [CHR 0x27] @ '', '' @ [CHR 0x27] @ ''kern.hostuuid'' @ [CHR 0x27],
     ''  ];'',
     ''  const isMachineIdCmd = (cmd) => cmd && machineIdPatterns.some(p => cmd.includes(p));'',
     [],
     ''  const originalExec = childProcess.exec;'',
     ''  childProcess.exec = function(cmd, options, callback) {'',
     ''    if (isMachineIdCmd(cmd)) {'',
     ''      if (typeof options === '' @ [CHR 0x27] @ ''function'' @ [CHR 0x27] @ '') { callback = options; options = {}; }'',
     ''      setImmediate(() => callback && callback(null, customMachineId, '' @ [CHR 0x27, CHR 0x27] @ ''));'',
     ''      return { on: () => {}, stdout: { on: () => {} }, stderr: { on: () => {} } };'',
     ''    }'',
     ''    return originalExec.apply(this, arguments);'',
     ''  };'',
     [],
     ''  const originalExecSync = childProcess.execSync;'',
     ''  childProcess.execSync = function(cmd, options) {'',
     ''    if (isMachineIdCmd(cmd)) return Buffer.from(customMachineId);'',
     ''    return originalExecSync.apply(this, arguments);'',
     ''  };'',
     [],
     ''  // 3. '' @ [CHR 0xE6, CHR 0x94, CHR 0x94, CHR 0xE6, CHR 0x88, CHR 0xAA] @ '' fs'' @ [CHR 0xEF, CHR 0xBC, CHR 0x88, CHR 0xE9, CHR 0x87, CHR 0x9D, CHR 0xE5, CHR 0xB0, CHR 0x8D] @ '' Linux /etc/machine-id'' @ [CHR 0xEF, CHR 0xBC, CHR 0x89],
     ''  const machineIdPaths = ['' @ [CHR 0x27] @ ''/etc/machine-id'' @ [CHR 0x27] @ '', '' @ [CHR 0x27] @ ''/var/lib/dbus/machine-id'' @ [CHR 0x27] @ '', '' @ [CHR 0x27] @ ''/etc/hostid'' @ [CHR 0x27] @ ''];'',
     ''  const isMachineIdPath = (p) => p && machineIdPaths.some(mp => String(p).includes(mp));'',
     [],
     ''  const originalReadFile = fs.readFile;'',
     ''  fs.readFile = function(filePath, options, callback) {'',
     ''    if (isMachineIdPath(filePath)) {'',
     ''      if (typeof options === '' @ [CHR 0x27] @ ''function'' @ [CHR 0x27] @ '') { callback = options; }'',
     ''      setImmediate(() => callback && callback(null, customMachineId));'',
     ''      return;'',
     ''    }'',
     ''    return originalReadFile.apply(this, arguments);'',
     ''  };'',
     [],
     ''  const originalReadFileSync = fs.readFileSync;'',
     ''  fs.readFileSync = function(filePath, options) {'',
     ''    if (isMachineIdPath(filePath)) return customMachineId;'',
     ''    return originalReadFileSync.apply(this, arguments);'',
     ''  };'',
     [],
     ''  if (fs.promises) {'',
     ''    const originalPromisesReadFile = fs.promises.readFile;'',
     ''    fs.promises.readFile = async function(filePath, options) {'',
     ''      if (isMachineIdPath(filePath)) return customMachineId;'',
     ''      return originalPromisesReadFile.apply(this, arguments);'',
     ''    };'',
     ''  }'',
     ''})();'',
     ''/* END_KIRO_MANAGER_PATCH */'']"

definition unlines :: "string list \<Rightarrow> string" where
  "unlines ls = concat (map (\<lambda>l. l @ [CHR 0x0A]) ls)"

definition patchCode :: string where
  "patchCode = unlines patchLines"

definition extension_rel :: "string \<Rightarrow> path option" where
  "extension_rel goos =
     (if goos = ''windows'' then
        Some [''resources'', ''app'', ''extensions'', ''kiro.kiro-agent'', ''dist'', ''extension.js'']
      else if goos = ''darwin'' then
        Some [''Contents'', ''Resources'', ''app'', ''extensions'', ''kiro.kiro-agent'', ''dist'',
              ''extension.js'']
      else if goos = ''linux'' then
        Some [''resources'', ''app'', ''extensions'', ''kiro.kiro-agent'', ''dist'', ''extension.js'']
      else None)"

definition GetExtensionJSPath :: "env \<Rightarrow> node \<Rightarrow> error + path" where
  "GetExtensionJSPath E fs =
     (case GetKiroInstallPath E of
        Inl e \<Rightarrow> Inl e
      | Inr installPath \<Rightarrow>
          (case extension_rel (GOOS E) of
             None \<Rightarrow> Inl (ErrorString (''unsupported platform: '' @ GOOS E))
           | Some rel \<Rightarrow>
               (let extensionPath = installPath @ rel in
                (case Stat fs extensionPath of
                   Inl e \<Rightarrow>
                     if IsNotExist (PathError e) then Inl ErrExtensionNotFound
                     else Inr extensionPath
                 | Inr info \<Rightarrow> Inr extensionPath))))"

text \<open>The first 1024 bytes of the file, as \<open>IsPatched\<close> and \<open>IsOldPatched\<close> read them.\<close>

definition read_prefix :: "node \<Rightarrow> path \<Rightarrow> error + string" where
  "read_prefix fs extPath =
     (case Open fs extPath of
        Inl e \<Rightarrow> Inl (PathError e)
      | Inr file \<Rightarrow>
          (case Read file 1024 of
             (buf, Some err) \<Rightarrow> if err \<noteq> EOF then Inl err else Inr buf
           | (buf, None) \<Rightarrow> Inr buf))"

definition IsPatched :: "env \<Rightarrow> node \<Rightarrow> error + bool" where
  "IsPatched E fs =
     (case GetExtensionJSPath E fs of
        Inl e \<Rightarrow> Inl e
      | Inr extPath \<Rightarrow>
          (case read_prefix fs extPath of
             Inl e \<Rightarrow> Inl e
           | Inr buf \<Rightarrow> Inr (Contains buf PatchMarker)))"

definition IsOldPatched :: "env \<Rightarrow> node \<Rightarrow> error + bool" where
  "IsOldPatched E fs =
     (case GetExtensionJSPath E fs of
        Inl e \<Rightarrow> Inl e
      | Inr extPath \<Rightarrow>
          (case read_prefix fs extPath of
             Inl e \<Rightarrow> Inl e
           | Inr content \<Rightarrow>
               (let hasOldPatch = (Contains content OldPatchMarker \<or> Contains content OldPatchMarkerV2);
                    hasCurrentPatch = Contains content PatchMarker
                in Inr (hasOldPatch \<and> \<not> hasCurrentPatch))))"

text \<open>
  \<open>copyFile\<close>: open the source, create (and truncate) the destination, copy, sync.
  The bytes copied are those the source holds once the destination is created.
\<close>

definition copyFile :: "node \<Rightarrow> path \<Rightarrow> path \<Rightarrow> error option \<times> node" where
  "copyFile fs src dst =
     (case Open fs src of
        Inl e \<Rightarrow> (Some (PathError e), fs)
      | Inr srcFile \<Rightarrow>
          (case Create fs dst of
             (Some e, fs') \<Rightarrow> (Some (PathError e), fs')
           | (None, fs') \<Rightarrow>
               (case Open fs' src of
                  Inl e \<Rightarrow> (Some (PathError e), fs')
                | Inr (Dir es) \<Rightarrow> (Some (PathError EISDIR), fs')
                | Inr (File d) \<Rightarrow>
                    (case WriteFile fs' dst d of
                       (Some e, fs'') \<Rightarrow> (Some (PathError e), fs'')
                     | (None, fs'') \<Rightarrow> (None, fs'')))))"

definition BackupExtensionJS :: "env \<Rightarrow> node \<Rightarrow> error option \<times> node" where
  "BackupExtensionJS E fs =
     (case GetExtensionJSPath E fs of
        Inl e \<Rightarrow> (Some e, fs)
      | Inr extPath \<Rightarrow>
          (let backupPath = add_suffix extPath BackupSuffix in
           (case Stat fs backupPath of
              Inr info \<Rightarrow> (None, fs)
            | Inl e \<Rightarrow> copyFile fs extPath backupPath)))"

definition RestoreExtensionJS :: "env \<Rightarrow> node \<Rightarrow> error option \<times> node" where
  "RestoreExtensionJS E fs =
     (case GetExtensionJSPath E fs of
        Inl e \<Rightarrow> (Some e, fs)
      | Inr extPath \<Rightarrow>
          (let backupPath = add_suffix extPath BackupSuffix in
           if (case Stat fs backupPath of Inl e \<Rightarrow> IsNotExist (PathError e) | Inr info \<Rightarrow> False)
           then (Some ErrPatchBackupNotFound, fs)
           else
             (case copyFile fs backupPath extPath of
                (Some err, fs') \<Rightarrow> (Some err, fs')
              | (None, fs') \<Rightarrow> (None, snd (Remove fs' backupPath)))))"

definition UnpatchExtensionJS :: "env \<Rightarrow> node \<Rightarrow> error option \<times> node" where
  "UnpatchExtensionJS E fs =
     (case GetExtensionJSPath E fs of
        Inl e \<Rightarrow> (Some e, fs)
      | Inr extPath \<Rightarrow>
          (case IsPatched E fs of
             Inl e \<Rightarrow> (Some e, fs)
           | Inr patched \<Rightarrow>
               (case IsOldPatched E fs of
                  Inl e \<Rightarrow> (Some e, fs)
                | Inr oldPatched \<Rightarrow>
                    if \<not> patched \<and> \<not> oldPatched then (None, fs)
                    else
                      (case ReadFile fs extPath of
                         Inl e \<Rightarrow> (Some (PathError e), fs)
                       | Inr contentStr \<Rightarrow>
                           (let endIdx = Index contentStr PatchEndMarker in
                            if endIdx = - 1 then RestoreExtensionJS E fs
                            else
                              (let endIdx1 = endIdx + int (length PatchEndMarker);
                                   endIdx2 =
                                     (if endIdx1 < int (length contentStr)
                                         \<and> contentStr ! nat endIdx1 = CHR 0x0A
                                      then endIdx1 + 1 else endIdx1);
                                   newContent = drop (nat endIdx2) contentStr
                               in (case WriteFile fs extPath newContent of
                                     (Some e, fs') \<Rightarrow> (Some (PathError e), fs')
                                   | (None, fs') \<Rightarrow> (None, fs'))))))))"

definition PatchExtensionJS :: "env \<Rightarrow> node \<Rightarrow> error option \<times> node" where
  "PatchExtensionJS E fs =
     (case GetExtensionJSPath E fs of
        Inl e \<Rightarrow> (Some e, fs)
      | Inr extPath \<Rightarrow>
          (case IsPatched E fs of
             Inl e \<Rightarrow> (Some e, fs)
           | Inr patched \<Rightarrow>
               if patched then (None, fs)
               else
                 (case IsOldPatched E fs of
                    Inl e \<Rightarrow> (Some e, fs)
                  | Inr oldPatched \<Rightarrow>
                      (case (if oldPatched then UnpatchExtensionJS E fs else (None, fs)) of
                         (Some e, fs1) \<Rightarrow> (Some e, fs1)
                       | (None, fs1) \<Rightarrow>
                           (case BackupExtensionJS E fs1 of
                              (Some e, fs2) \<Rightarrow> (Some e, fs2)
                            | (None, fs2) \<Rightarrow>
                                (case ReadFile fs2 extPath of
                                   Inl e \<Rightarrow> (Some (PathError e), fs2)
                                 | Inr content \<Rightarrow>
                                     (let newContent = patchCode @ content in
                                      (case WriteFile fs2 extPath newContent of
                                         (Some e, fs3) \<Rightarrow> (Some (PathError e), fs3)
                                       | (None, fs3) \<Rightarrow> (None, fs3)))))))))"

section \<open>Package softreset: the override identifier and the status\<close>

definition CustomMachineIDFileName :: string where
  "CustomMachineIDFileName = ''custom-machine-id''"

record SoftResetStatus =
  IsPatched_field :: bool
  HasCustomID :: bool
  CustomMachineID :: string
  ExtensionPath :: string

definition GetCustomMachineIDPath :: "env \<Rightarrow> error + path" where
  "GetCustomMachineIDPath E =
     (case GetKiroHomePath E of
        Inl e \<Rightarrow> Inl e
      | Inr kiroHome \<Rightarrow> Inr (kiroHome @ [CustomMachineIDFileName]))"

definition ReadCustomMachineID :: "env \<Rightarrow> node \<Rightarrow> error + string" where
  "ReadCustomMachineID E fs =
     (case GetCustomMachineIDPath E of
        Inl e \<Rightarrow> Inl e
      | Inr idPath \<Rightarrow>
          (case ReadFile fs idPath of
             Inl e \<Rightarrow>
               if IsNotExist (PathError e) then Inl ErrCustomIDNotFound else Inl (PathError e)
           | Inr data \<Rightarrow>
               (let id = TrimSpace data in
                if id = [] then Inl ErrCustomIDNotFound else Inr id)))"

definition GetSoftResetStatus :: "env \<Rightarrow> node \<Rightarrow> SoftResetStatus \<times> error option" where
  "GetSoftResetStatus E fs =
     (let status = \<lparr>IsPatched_field = False, HasCustomID = False, CustomMachineID = [],
                     ExtensionPath = []\<rparr>;
          status1 = (case IsPatched E fs of
                       Inr patched \<Rightarrow> status\<lparr>IsPatched_field := patched\<rparr>
                     | Inl err \<Rightarrow> status);
          status2 = (case ReadCustomMachineID E fs of
                       Inr customID \<Rightarrow> status1\<lparr>HasCustomID := True, CustomMachineID := customID\<rparr>
                     | Inl err \<Rightarrow> status1);
          status3 = (case GetExtensionJSPath E fs of
                       Inr extPath \<Rightarrow> status2\<lparr>ExtensionPath := path_string extPath\<rparr>
                     | Inl err \<Rightarrow> status2)
      in (status3, None))"

section \<open>Package awssso: the session cache and the live token\<close>

definition GetSSOCachePath :: "env \<Rightarrow> error + path" where
  "GetSSOCachePath E =
     (case UserHomeDir E of
        Inl e \<Rightarrow> Inl e
      | Inr homeDir \<Rightarrow> Inr (homeDir @ [''.aws'', ''sso'', ''cache'']))"

definition KiroAuthTokenFile :: string where
  "KiroAuthTokenFile = ''kiro-auth-token.json''"


section \<open>Package backup: the snapshot store\<close>

definition BackupDirName :: string where
  "BackupDirName = ''backups''"

definition MachineIDFileName :: string where
  "MachineIDFileName = ''machine-id.json''"

record BackupInfo =
  Name :: string
  Path :: string
  InfoBackupTime :: Time
  HasToken :: bool
  HasMachineID :: bool

text \<open>
  The field \<open>BackupTime\<close> of \<open>BackupInfo\<close> is \<open>InfoBackupTime\<close> here, and the field
  \<open>IsPatched\<close> of \<open>SoftResetStatus\<close> is \<open>IsPatched_field\<close>: the plain names are those of
  \<open>MachineIDBackup\<close>'s field and of the function. The packages \<open>backup\<close> and \<open>softreset\<close>
  each have the same \<open>copyFile\<close>, given once above.
\<close>

text \<open>The directory \<open>backups\<close> beside the running executable.\<close>

definition GetBackupRootPath :: "env \<Rightarrow> error + path" where
  "GetBackupRootPath E =
     (case Executable E of
        Inl e \<Rightarrow> Inl e
      | Inr execPath \<Rightarrow> Inr (butlast execPath @ [BackupDirName]))"


definition GetBackupPath :: "env \<Rightarrow> string \<Rightarrow> error + path" where
  "GetBackupPath E name =
     (if name = [] then Inl ErrInvalidBackupName
      else
        (case GetBackupRootPath E of
           Inl e \<Rightarrow> Inl e
         | Inr rootPath \<Rightarrow> Inr (Join rootPath name)))"

definition BackupExists :: "env \<Rightarrow> node \<Rightarrow> string \<Rightarrow> bool" where
  "BackupExists E fs name =
     (case GetBackupPath E name of
        Inl e \<Rightarrow> False
      | Inr backupPath \<Rightarrow>
          (case Stat fs backupPath of
             Inl e \<Rightarrow> False
           | Inr info \<Rightarrow> IsDir info))"

text \<open>
  The body of the loop of \<open>ListBackups\<close> for one directory entry: the presence of the
  token file is probed with \<open>os.Stat\<close>, that of the identifier file with \<open>os.ReadFile\<close>,
  and the backup time is set when the identifier file decodes and its time parses.
\<close>

definition backup_info :: "env \<Rightarrow> node \<Rightarrow> path \<Rightarrow> string \<Rightarrow> BackupInfo" where
  "backup_info E fs rootPath name =
     (let backupPath = Join rootPath name;
          info = \<lparr>Name = name, Path = path_string backupPath, InfoBackupTime = 0,
                  HasToken = False, HasMachineID = False\<rparr>;
          tokenPath = backupPath @ [KiroAuthTokenFile];
          info1 = (case Stat fs tokenPath of
                     Inr st \<Rightarrow> info\<lparr>HasToken := True\<rparr>
                   | Inl e \<Rightarrow> info);
          machineIDPath = backupPath @ [MachineIDFileName]
      in (case ReadFile fs machineIDPath of
            Inl e \<Rightarrow> info1
          | Inr data \<Rightarrow>
              (let info2 = info1\<lparr>HasMachineID := True\<rparr> in
               (case Unmarshal_MachineIDBackup E data of
                  Inl e \<Rightarrow> info2
                | Inr mid \<Rightarrow>
                    if BackupTime mid \<noteq> [] then
                      (case time_Parse_RFC3339 E (BackupTime mid) of
                         Inl e \<Rightarrow> info2
                       | Inr t \<Rightarrow> info2\<lparr>InfoBackupTime := t\<rparr>)
                    else info2))))"

fun list_entries :: "env \<Rightarrow> node \<Rightarrow> path \<Rightarrow> (string \<times> bool) list \<Rightarrow> BackupInfo list" where
  "list_entries E fs rootPath [] = []"
| "list_entries E fs rootPath ((name, isDir) # entries) =
     (if \<not> isDir then list_entries E fs rootPath entries
      else backup_info E fs rootPath name # list_entries E fs rootPath entries)"

definition ListBackups :: "env \<Rightarrow> node \<Rightarrow> error + BackupInfo list" where
  "ListBackups E fs =
     (case GetBackupRootPath E of
        Inl e \<Rightarrow> Inl e
      | Inr rootPath \<Rightarrow>
          if (case Stat fs rootPath of Inl e \<Rightarrow> IsNotExist (PathError e) | Inr info \<Rightarrow> False)
          then Inr []
          else
            (case ReadDir fs rootPath of
               Inl e \<Rightarrow> Inl (PathError e)
             | Inr entries \<Rightarrow> Inr (list_entries E fs rootPath entries)))"



definition ReadBackupMachineID :: "env \<Rightarrow> node \<Rightarrow> string \<Rightarrow> error + MachineIDBackup" where
  "ReadBackupMachineID E fs name =
     (if name = [] then Inl ErrInvalidBackupName
      else if \<not> BackupExists E fs name then Inl ErrBackupNotFound
      else
        (case GetBackupPath E name of
           Inl err \<Rightarrow> Inl err
         | Inr backupPath \<Rightarrow>
             (let machineIDPath = backupPath @ [MachineIDFileName] in
              (case ReadFile fs machineIDPath of
                 Inl e \<Rightarrow> Inl (Wrapped ''failed to read machine id file'' (PathError e))
               | Inr data \<Rightarrow>
                   (case Unmarshal_MachineIDBackup E data of
                      Inl err \<Rightarrow> Inl (Wrapped ''failed to parse machine id file'' err)
                    | Inr mid \<Rightarrow> Inr mid)))))"



section \<open>Package reset: the hard reset\<close>

record ResetResult =
  CacheCleared :: bool
  OldMachineID :: string
  NewMachineID :: string
  MachineIDChanged :: bool

text \<open>
  The state the hard reset works on: the file system and the value \<open>MachineGuid\<close> of the
  registry key \<open>HKLM\SOFTWARE\Microsoft\Cryptography\<close>.
\<close>

type_synonym world = "node \<times> string"

definition ClearSSOCache :: "env \<Rightarrow> node \<Rightarrow> error option \<times> node" where
  "ClearSSOCache E fs =
     (case GetSSOCachePath E of
        Inl err \<Rightarrow> (Some err, fs)
      | Inr cachePath \<Rightarrow>
          if (case Stat fs cachePath of Inl e \<Rightarrow> IsNotExist (PathError e) | Inr info \<Rightarrow> False)
          then (None, fs)
          else
            (case RemoveAll fs cachePath of
               (Some e, fs') \<Rightarrow> (Some (PathError e), fs')
             | (None, fs') \<Rightarrow> (None, fs')))"

definition GenerateNewMachineID :: "env \<Rightarrow> string" where
  "GenerateNewMachineID E = ToLower E (uuid_New E)"

text \<open>
  The words for "access denied" that \<open>setWindowsMachineIDNative\<close> looks for in the output
  of \<open>reg add\<close>; the first is the Chinese message, in UTF-8.
\<close>

definition access_denied_zh :: string where
  "access_denied_zh =
     [CHR 0xE6, CHR 0x8B, CHR 0x92, CHR 0xE7, CHR 0xB5, CHR 0x95,
      CHR 0xE5, CHR 0xAD, CHR 0x98, CHR 0xE5, CHR 0x8F, CHR 0x96]"

text \<open>
  \<open>setWindowsMachineIDNative\<close>: on a Windows build it runs \<open>reg add\<close>, which sets the
  value when it succeeds; on any other build it is the stub that answers \<open>ErrNotWindows\<close>.
\<close>

definition setWindowsMachineIDNative :: "env \<Rightarrow> string \<Rightarrow> string \<Rightarrow> error option \<times> string" where
  "setWindowsMachineIDNative E guid newGUID =
     (if GOOS E = ''windows'' then
        (case reg_add E newGUID of
           (output, Some err) \<Rightarrow>
             if Contains output access_denied_zh
                \<or> Contains output ''Access is denied''
                \<or> Contains output ''ERROR: Access is denied''
             then (Some ErrRequiresAdmin, guid)
             else (Some err, guid)
         | (output, None) \<Rightarrow> (None, newGUID))
      else (Some ErrNotWindows, guid))"

definition SetWindowsMachineID :: "env \<Rightarrow> string \<Rightarrow> string \<Rightarrow> error option \<times> string" where
  "SetWindowsMachineID E guid newGUID =
     (if GOOS E \<noteq> ''windows'' then (Some ErrNotWindows, guid)
      else setWindowsMachineIDNative E guid newGUID)"

text \<open>The loop of \<open>IsCurrentMachineIDBackedUp\<close> over the listed snapshots.\<close>

fun any_backup_matches :: "env \<Rightarrow> node \<Rightarrow> string \<Rightarrow> BackupInfo list \<Rightarrow> bool" where
  "any_backup_matches E fs currentID [] = False"
| "any_backup_matches E fs currentID (b # backups) =
     (case ReadBackupMachineID E fs (Name b) of
        Inl err \<Rightarrow> any_backup_matches E fs currentID backups
      | Inr mid \<Rightarrow>
          if EqualFold E (MachineID mid) currentID then True
          else any_backup_matches E fs currentID backups)"

definition IsCurrentMachineIDBackedUp :: "env \<Rightarrow> node \<Rightarrow> bool \<times> string \<times> error option" where
  "IsCurrentMachineIDBackedUp E fs =
     (case GetRawMachineId E of
        Inl err \<Rightarrow> (False, [], Some err)
      | Inr currentID \<Rightarrow>
          (case ListBackups E fs of
             Inl err \<Rightarrow> (False, currentID, Some err)
           | Inr backups \<Rightarrow> (any_backup_matches E fs currentID backups, currentID, None)))"

definition ResetEnvironment ::
  "env \<Rightarrow> world \<Rightarrow> bool \<Rightarrow> (ResetResult option \<times> error option) \<times> world" where
  "ResetEnvironment E w skipBackupCheck =
     (let fs = fst w; guid = snd w in
      if GOOS E \<noteq> ''windows'' then ((None, Some ErrNotWindows), w)
      else
        (let result = \<lparr>CacheCleared = False, OldMachineID = [], NewMachineID = [],
                       MachineIDChanged = False\<rparr> in
         (case GetRawMachineId E of
            Inl err \<Rightarrow> ((None, Some err), w)
          | Inr oldMachineID \<Rightarrow>
              (let result1 = result\<lparr>OldMachineID := oldMachineID\<rparr> in
               (case (if \<not> skipBackupCheck then
                        (case IsCurrentMachineIDBackedUp E fs of
                           (isBackedUp, cur, Some err) \<Rightarrow> Some (None, Some err)
                         | (isBackedUp, cur, None) \<Rightarrow>
                             if \<not> isBackedUp then Some (Some result1, Some ErrBackupRequired)
                             else None)
                      else None) of
                  Some early \<Rightarrow> (early, w)
                | None \<Rightarrow>
                    (case ClearSSOCache E fs of
                       (Some err, fs1) \<Rightarrow> ((Some result1, Some err), (fs1, guid))
                     | (None, fs1) \<Rightarrow>
                         (let result2 = result1\<lparr>CacheCleared := True\<rparr>;
                              newMachineID = GenerateNewMachineID E;
                              result3 = result2\<lparr>NewMachineID := newMachineID\<rparr>
                          in (case SetWindowsMachineID E guid newMachineID of
                                (Some err, guid1) \<Rightarrow> ((Some result3, Some err), (fs1, guid1))
                              | (None, guid1) \<Rightarrow>
                                  ((Some (result3\<lparr>MachineIDChanged := True\<rparr>), None),
                                   (fs1, guid1))))))))))"

section \<open>Example worlds\<close>

text \<open>A tree with one node at a path, under directories that hold nothing else.\<close>

fun tree_at :: "path \<Rightarrow> node \<Rightarrow> node" where
  "tree_at [] n = n"
| "tree_at (c # cs) n = Dir [(c, tree_at cs n)]"

text \<open>
  The documents of the examples: an identifier file, the token of the specification's
  scenario, and the same token as \<open>json.MarshalIndent\<close> writes it after the update.
\<close>

definition mid_doc :: string where
  \<open>mid_doc = ''{\<newline>  "machineId": "ffff",\<newline>  "backupTime": "2025-01-01T00:00:00Z"\<newline>}''\<close>

definition token_doc1 :: string where
  \<open>token_doc1 =
     ''{"accessToken":"a1","expiresAt":"2025-01-01T00:00:00Z","refreshToken":"r1","custom":"x"}''\<close>

definition token_doc2 :: string where
  \<open>token_doc2 =
     ''{\<newline>  "accessToken": "a2",\<newline>  "custom": "x",\<newline>  "expiresAt": "2025-02-01T00:00:00Z",\<newline>  "refreshToken": "r1"\<newline>}''\<close>

definition token_map1 :: "string \<rightharpoonup> jvalue" where
  "token_map1 =
     [''accessToken'' \<mapsto> JString ''a1'', ''expiresAt'' \<mapsto> JString ''2025-01-01T00:00:00Z'',
      ''refreshToken'' \<mapsto> JString ''r1'', ''custom'' \<mapsto> JString ''x'']"

definition render_MachineIDBackup :: "MachineIDBackup \<Rightarrow> string" where
  \<open>render_MachineIDBackup m =
     ''{\<newline>  "machineId": "'' @ MachineID m @ ''",\<newline>  "backupTime": "'' @ BackupTime m
       @ ''"\<newline>}''\<close>

text \<open>
  A Linux machine: the IDE under \<open>/opt/Kiro\<close>, the user's home \<open>/home/u\<close>, the manager's
  executable \<open>/opt/kiro-manager/kiro-manager\<close>. The JSON functions and the clock know
  the documents and the time of the examples; \<open>reg add\<close> succeeds.
\<close>

definition E0 :: env where
  "E0 = \<lparr>GOOS = ''linux'',
         Executable = Inr [''opt'', ''kiro-manager'', ''kiro-manager''],
         UserHomeDir = Inr [''home'', ''u''],
         GetKiroInstallPath = Inr [''opt'', ''Kiro''],
         GetKiroHomePath = Inr [''home'', ''u'', ''.kiro''],
         GetRawMachineId = Inr ''0123abcd'',
         Now_RFC3339 = ''2025-01-01T00:00:00Z'',
         uuid_New = ''9F1C2D3E-0000-4000-8000-000000000001'',
         reg_add = (\<lambda>g. (''The operation completed successfully.'', None)),
         Unmarshal_MachineIDBackup =
           (\<lambda>s. if s = mid_doc
                then Inr \<lparr>MachineID = ''ffff'', BackupTime = ''2025-01-01T00:00:00Z''\<rparr>
                else Inl (ErrorString ''invalid character'')),
         MarshalIndent_MachineIDBackup = (\<lambda>m. Inr (render_MachineIDBackup m)),
         Unmarshal_map =
           (\<lambda>s. if s = token_doc1 then Inr (Some token_map1)
                else if s = token_doc2
                then Inr (Some (token_map1(''accessToken'' \<mapsto> JString ''a2'',
                                           ''expiresAt'' \<mapsto> JString ''2025-02-01T00:00:00Z'')))
                else Inl (ErrorString ''invalid character'')),
         MarshalIndent_map = (\<lambda>m. Inr token_doc2),
         time_Parse_RFC3339 =
           (\<lambda>s. if s = ''2025-01-01T00:00:00Z'' then Inr 63871286400
                else Inl (ErrorString ''cannot parse'')),
         unicode_ToLower = (\<lambda>s. s),
         unicode_EqualFold = (\<lambda>s t. s = t)\<rparr>"

text \<open>The same machine as a Windows machine, with and without administrator rights.\<close>

definition E_admin :: env where
  "E_admin = E0\<lparr>GOOS := ''windows''\<rparr>"

definition E_user :: env where
  "E_user = E0\<lparr>GOOS := ''windows'',
               reg_add := (\<lambda>g. (''ERROR: Access is denied.'', Some (ExitError ''exit status 1'')))\<rparr>"

definition ext0 :: path where
  "ext0 = [''opt'', ''Kiro'', ''resources'', ''app'', ''extensions'', ''kiro.kiro-agent'', ''dist'',
           ''extension.js'']"

definition backup0 :: path where
  "backup0 = [''opt'', ''Kiro'', ''resources'', ''app'', ''extensions'', ''kiro.kiro-agent'', ''dist'',
              ''extension.js.kiro-manager-backup'']"

text \<open>The artifact holds \<open>console.log(1)\<close>; there is no backup file.\<close>

definition fs_fresh :: node where
  "fs_fresh = tree_at ext0 (File ''console.log(1)'')"

text \<open>The artifact holds the current start marker behind 1024 other bytes.\<close>

definition fs_deep :: node where
  "fs_deep = tree_at ext0 (File (replicate 1024 (CHR ''a'') @ PatchMarker))"



text \<open>The override file holds an identifier; the IDE is not installed.\<close>

definition fs_override :: node where
  "fs_override = tree_at [''home'', ''u'', ''.kiro'', ''custom-machine-id''] (File ''abc-123'')"

text \<open>The manager's directory, without a snapshot store; no home directory, so no token.\<close>

definition fs_exec :: node where
  "fs_exec = tree_at [''opt'', ''kiro-manager'', ''kiro-manager''] (File [])"

text \<open>The snapshot store with one complete snapshot \<open>work\<close> and a plain file \<open>notes.txt\<close>.\<close>

definition fs_store :: node where
  "fs_store =
     tree_at [''opt'', ''kiro-manager'', ''backups'']
       (Dir [(''notes.txt'', File ''x''),
             (''work'', Dir [(''kiro-auth-token.json'', File token_doc1),
                             (''machine-id.json'', File mid_doc)])])"

text \<open>A snapshot \<open>work\<close> in which the names of both halves are directories.\<close>

definition fs_odd :: node where
  "fs_odd =
     tree_at [''opt'', ''kiro-manager'', ''backups'', ''work'']
       (Dir [(''kiro-auth-token.json'', Dir []), (''machine-id.json'', Dir [])])"

section \<open>Laws of the file system and of the strings\<close>

subsection \<open>Looking up and altering an entry\<close>



lemma entry_Nil [simp]: "entry [] fs = Some fs"
  by (simp add: entry_def)

lemma entry_single [simp]: "entry [c] (Dir es) = map_of es c"
  by (simp add: entry_def split: option.splits)

lemma entry_Cons_Dir:
  "entry (c # cs) (Dir es) = (case map_of es c of None \<Rightarrow> None | Some n \<Rightarrow> entry cs n)"
  by (simp add: entry_def split: option.splits)

lemma alter_entry:
  "alter p f fs = Inr fs' \<Longrightarrow> f (entry p fs) = Inr (entry p fs')"
proof (induction p f fs arbitrary: fs' rule: alter.induct)
  case (1 f n)
  then show ?case by (auto split: sum.splits option.splits)
next
  case (2 c cs f d)
  then show ?case by simp
next
  case (3 c cs f es)
  show ?case
  proof (cases "cs = []")
    case True
    with 3(2) show ?thesis
      by (auto split: sum.splits option.splits simp: update_conv' delete_conv')
  next
    case False
    with 3(2) obtain n n' where n: "map_of es c = Some n" and a: "alter cs f n = Inr n'"
      and fs': "fs' = Dir (AList.update c n' es)"
      by (auto split: sum.splits option.splits)
    from 3(1)[OF False n a] have "f (entry cs n) = Inr (entry cs n')" .
    then show ?thesis using n fs' by (simp add: entry_Cons_Dir update_conv')
  qed
qed

lemma alter_other:
  "alter p f fs = Inr fs' \<Longrightarrow> \<not> prefix p q \<Longrightarrow> \<not> prefix q p \<Longrightarrow> lookup q fs' = lookup q fs"
proof (induction p f fs arbitrary: fs' q rule: alter.induct)
  case (1 f n)
  then show ?case by simp
next
  case (2 c cs f d)
  then show ?case by simp
next
  case (3 c cs f es)
  from 3(4) obtain d ds where q: "q = d # ds" by (cases q) auto
  show ?case
  proof (cases "d = c")
    case False
    with 3(2) q show ?thesis
      by (auto split: sum.splits option.splits if_splits simp: update_conv' delete_conv')
  next
    case True
    with 3(3) q have ne: "cs \<noteq> []" by auto
    with 3(2) obtain n n' where n: "map_of es c = Some n" and a: "alter cs f n = Inr n'"
      and fs': "fs' = Dir (AList.update c n' es)"
      by (auto split: sum.splits option.splits)
    from 3(3,4) q True have "\<not> prefix cs ds" "\<not> prefix ds cs" by auto
    from 3(1)[OF ne n a this] show ?thesis using q True n fs' by (simp add: update_conv')
  qed
qed

lemma alter_ok:
  "p \<noteq> [] \<Longrightarrow> lookup (butlast p) fs = Inr (Dir es) \<Longrightarrow> f (entry p fs) = Inr r \<Longrightarrow>
   \<exists>fs'. alter p f fs = Inr fs'"
proof (induction p f fs rule: alter.induct)
  case (1 f n)
  then show ?case by simp
next
  case (2 c cs f d)
  then show ?case by (cases cs) auto
next
  case (3 c cs f es')
  show ?case
  proof (cases "cs = []")
    case True
    with 3(4) show ?thesis by (cases r) auto
  next
    case False
    with 3(3) obtain n where n: "map_of es' c = Some n" and l: "lookup (butlast cs) n = Inr (Dir es)"
      by (auto split: option.splits)
    from 3(4) n have "f (entry cs n) = Inr r" by (simp add: entry_Cons_Dir)
    from 3(1)[OF False n False l this] obtain n' where "alter cs f n = Inr n'" by blast
    with n False show ?thesis by simp
  qed
qed



subsection \<open>Searching a string\<close>

lemma HasPrefix_Nil [simp]: "HasPrefix [] m = (m = [])"
  by (cases m) auto

lemma HasPrefix_append: "HasPrefix x m \<Longrightarrow> HasPrefix (x @ y) m"
  by (induction x m rule: HasPrefix.induct) auto

lemma HasPrefix_self: "HasPrefix (m @ x) m"
  by (induction m) auto

lemma HasPrefix_take: "length m \<le> n \<Longrightarrow> HasPrefix (take n (m @ x)) m"
  by (induction m arbitrary: n) (auto simp: take_Cons split: nat.splits)

lemma HasPrefix_sep:
  "nl \<notin> set m \<Longrightarrow> HasPrefix (x @ nl # y) m \<Longrightarrow> HasPrefix x m"
  by (induction x m rule: HasPrefix.induct) auto

lemma HasPrefix_mem: "HasPrefix s m \<Longrightarrow> set m \<subseteq> set s"
  by (induction s m rule: HasPrefix.induct) auto

lemma index_from_prefix: "HasPrefix s m \<Longrightarrow> index_from i s m = int i"
  by (cases s) auto

lemma index_from_ge: "index_from i s m = - 1 \<or> int i \<le> index_from i s m"
  by (induction i s m rule: index_from.induct) auto

lemma occurrences_0_index: "m \<noteq> [] \<Longrightarrow> occurrences s m = 0 \<Longrightarrow> index_from i s m = - 1"
  by (induction s arbitrary: i) (auto split: if_splits)

lemma index_from_skip_line:
  "m \<noteq> [] \<Longrightarrow> nl \<notin> set m \<Longrightarrow> occurrences l m = 0 \<Longrightarrow>
   index_from i (l @ nl # rest) m = index_from (i + length l + 1) rest m"
proof (induction l arbitrary: i)
  case Nil
  then show ?case by (cases m) auto
next
  case (Cons c l)
  from Cons.prems have no: "\<not> HasPrefix (c # l) m" and occ: "occurrences l m = 0"
    by (auto split: if_splits)
  from no Cons.prems(2) have "\<not> HasPrefix ((c # l) @ nl # rest) m"
    using HasPrefix_sep by blast
  then show ?case using Cons.IH[OF Cons.prems(1,2) occ, of "Suc i"] by simp
qed


lemma index_from_skip_lines:
  "m \<noteq> [] \<Longrightarrow> CHR 0x0A \<notin> set m \<Longrightarrow> list_all (\<lambda>l. occurrences l m = 0) ls \<Longrightarrow>
   index_from i (unlines ls @ rest) m = index_from (i + length (unlines ls)) rest m"
proof (induction ls arbitrary: i)
  case Nil
  then show ?case by (simp add: unlines_def)
next
  case (Cons l ls)
  then show ?case
    using index_from_skip_line[of m "CHR 0x0A" l i "unlines ls @ rest"]
    by (simp add: unlines_def add.assoc)
qed

lemma occurrences_line:
  "m \<noteq> [] \<Longrightarrow> nl \<notin> set m \<Longrightarrow>
   occurrences (l @ nl # rest) m = occurrences l m + occurrences rest m"
proof (induction l)
  case Nil
  then show ?case by (cases m) auto
next
  case (Cons c l)
  have "HasPrefix ((c # l) @ nl # rest) m = HasPrefix (c # l) m"
    using HasPrefix_sep[OF Cons.prems(2)] HasPrefix_append by blast
  then show ?case using Cons by simp
qed

lemma occurrences_lines:
  "m \<noteq> [] \<Longrightarrow> CHR 0x0A \<notin> set m \<Longrightarrow>
   occurrences (unlines ls @ rest) m = sum_list (map (\<lambda>l. occurrences l m) ls) + occurrences rest m"
proof (induction ls)
  case Nil
  then show ?case by (simp add: unlines_def)
next
  case (Cons l ls)
  then show ?case
    using occurrences_line[of m "CHR 0x0A" l "unlines ls @ rest"]
    by (simp add: unlines_def)
qed

lemma occurrences_no_char: "x \<in> set m \<Longrightarrow> x \<notin> set s \<Longrightarrow> occurrences s m = 0"
proof (induction s)
  case Nil
  then show ?case by auto
next
  case (Cons c s)
  then have "\<not> HasPrefix (c # s) m" using HasPrefix_mem by fastforce
  with Cons show ?case by simp
qed

subsection \<open>System calls\<close>

lemma lookup_entry: "lookup p fs = Inr n \<Longrightarrow> entry p fs = Some n"
  by (simp add: entry_def)

lemma entry_lookup: "entry p fs = Some n \<Longrightarrow> lookup p fs = Inr n"
  by (simp add: entry_def split: sum.splits)

lemma entry_None_iff: "entry p fs = None \<longleftrightarrow> (\<exists>e. lookup p fs = Inl e)"
  by (simp add: entry_def split: sum.splits)

lemma lookup_parent:
  "lookup p fs = Inr n \<Longrightarrow> p \<noteq> [] \<Longrightarrow> \<exists>es. lookup (butlast p) fs = Inr (Dir es)"
proof (induction p fs rule: lookup.induct)
  case (1 n)
  then show ?case by simp
next
  case (2 c cs d)
  then show ?case by simp
next
  case (3 c cs es)
  then show ?case by (cases "cs = []") (auto split: option.splits)
qed

lemma WriteFile_same:
  "WriteFile fs p d = (None, fs') \<Longrightarrow> lookup p fs' = Inr (File d)"
proof -
  assume "WriteFile fs p d = (None, fs')"
  then have a: "alter p (put_file d) fs = Inr fs'"
    by (auto simp: WriteFile_def run_def split: sum.splits)
  from alter_entry[OF a] have "entry p fs' = Some (File d)"
    by (auto simp: put_file_def split: option.splits node.splits)
  then show ?thesis by (rule entry_lookup)
qed

lemma WriteFile_other:
  "WriteFile fs p d = (r, fs') \<Longrightarrow> \<not> prefix p q \<Longrightarrow> \<not> prefix q p \<Longrightarrow> lookup q fs' = lookup q fs"
  by (auto simp: WriteFile_def run_def split: sum.splits dest: alter_other)

lemma WriteFile_ok:
  assumes "p \<noteq> []" "lookup (butlast p) fs = Inr (Dir es)" "\<And>es'. lookup p fs \<noteq> Inr (Dir es')"
  shows "\<exists>fs'. WriteFile fs p d = (None, fs')"
proof -
  have "put_file d (entry p fs) = Inr (Some (File d))"
    using assms(3) by (auto simp: put_file_def entry_def split: option.splits node.splits sum.splits)
  from alter_ok[of p fs es "put_file d", OF assms(1,2) this] show ?thesis
    by (auto simp: WriteFile_def run_def)
qed

lemma WriteFile_over:
  assumes "lookup p fs = Inr (File c)" "p \<noteq> []"
  shows "\<exists>fs'. WriteFile fs p d = (None, fs')"
proof -
  from lookup_parent[OF assms] obtain es where "lookup (butlast p) fs = Inr (Dir es)" by blast
  from WriteFile_ok[OF assms(2) this] assms(1) show ?thesis by auto
qed

lemma Remove_other:
  "Remove fs p = (r, fs') \<Longrightarrow> \<not> prefix p q \<Longrightarrow> \<not> prefix q p \<Longrightarrow> lookup q fs' = lookup q fs"
  by (auto simp: Remove_def run_def split: sum.splits dest: alter_other)

lemma ReadFile_File: "ReadFile fs p = Inr d \<longleftrightarrow> lookup p fs = Inr (File d)"
  by (auto simp: ReadFile_def split: sum.splits node.splits)

subsection \<open>Sibling paths\<close>

lemma add_suffix_sibling:
  assumes "p \<noteq> []" "s \<noteq> []"
  shows "\<not> prefix p (add_suffix p s)" "\<not> prefix (add_suffix p s) p"
    "butlast (add_suffix p s) = butlast p" "add_suffix p s \<noteq> []"
proof -
  have len: "length (add_suffix p s) = length p" using assms by (simp add: add_suffix_def)
  have ne: "add_suffix p s \<noteq> p"
  proof
    assume "add_suffix p s = p"
    then have "last (add_suffix p s) = last p" by simp
    then show False using assms by (simp add: add_suffix_def)
  qed
  show "\<not> prefix p (add_suffix p s)"
  proof
    assume "prefix p (add_suffix p s)"
    then obtain zs where "add_suffix p s = p @ zs" by (auto simp: prefix_def)
    with len ne show False by (metis append_self_conv length_append add_cancel_right_right length_0_conv)
  qed
  show "\<not> prefix (add_suffix p s) p"
  proof
    assume "prefix (add_suffix p s) p"
    then obtain zs where "p = add_suffix p s @ zs" by (auto simp: prefix_def)
    with len ne show False by (metis append_self_conv length_append add_cancel_right_right length_0_conv)
  qed
  show "butlast (add_suffix p s) = butlast p" using assms by (simp add: add_suffix_def)
  show "add_suffix p s \<noteq> []" using assms by (simp add: add_suffix_def)
qed

section \<open>Laws of the patch engine\<close>

subsection \<open>The payload\<close>

lemma end_marker_lines: "list_all (\<lambda>l. occurrences l PatchEndMarker = 0) (butlast patchLines)"
  unfolding patchLines_def PatchEndMarker_def by simp

lemma marker_lines: "sum_list (map (\<lambda>l. occurrences l PatchMarker) patchLines) = 1"
  unfolding patchLines_def PatchMarker_def by simp

lemma patchLines_last: "patchLines = butlast patchLines @ [PatchEndMarker]"
  by (simp add: patchLines_def PatchEndMarker_def)

lemma patchLines_first: "patchLines = PatchMarker # tl patchLines"
  by (simp add: patchLines_def PatchMarker_def)

lemma unlines_append: "unlines (xs @ ys) = unlines xs @ unlines ys"
  by (simp add: unlines_def)

lemma patchCode_end: "patchCode = unlines (butlast patchLines) @ PatchEndMarker @ [CHR 0x0A]"
proof -
  have "unlines patchLines = unlines (butlast patchLines @ [PatchEndMarker])"
    using patchLines_last by simp
  then show ?thesis by (simp add: patchCode_def unlines_append) (simp add: unlines_def)
qed

lemma patchCode_start: "patchCode = PatchMarker @ CHR 0x0A # unlines (tl patchLines)"
proof -
  have "unlines patchLines = unlines (PatchMarker # tl patchLines)"
    using patchLines_first by simp
  then show ?thesis by (simp add: patchCode_def) (simp add: unlines_def)
qed

lemma marker_facts:
  "PatchMarker \<noteq> []" "CHR 0x0A \<notin> set PatchMarker" "length PatchMarker \<le> 1024"
  "PatchEndMarker \<noteq> []" "CHR 0x0A \<notin> set PatchEndMarker"
  by (simp_all add: PatchMarker_def PatchEndMarker_def)

lemma Contains_prefix: "HasPrefix s m \<Longrightarrow> Contains s m"
  by (simp add: Contains_def Index_def index_from_prefix)

lemma Contains_patchCode: "Contains (take 1024 (patchCode @ c)) PatchMarker"
proof -
  have "HasPrefix (take 1024 (PatchMarker @ (CHR 0x0A # unlines (tl patchLines) @ c))) PatchMarker"
    by (rule HasPrefix_take) (rule marker_facts)
  then show ?thesis by (simp add: patchCode_start Contains_prefix)
qed

lemma Index_patchCode:
  "Index (patchCode @ c) PatchEndMarker = int (length (unlines (butlast patchLines)))"
proof -
  have "index_from 0 (unlines (butlast patchLines) @ (PatchEndMarker @ CHR 0x0A # c)) PatchEndMarker
      = index_from (0 + length (unlines (butlast patchLines))) (PatchEndMarker @ CHR 0x0A # c) PatchEndMarker"
    by (rule index_from_skip_lines) (rule marker_facts end_marker_lines)+
  also have "\<dots> = int (length (unlines (butlast patchLines)))"
    by (simp add: index_from_prefix HasPrefix_self)
  finally show ?thesis by (simp add: Index_def patchCode_end)
qed

lemma occurrences_patchCode:
  "occurrences (patchCode @ c) PatchMarker = 1 + occurrences c PatchMarker"
  unfolding patchCode_def
  by (simp add: occurrences_lines marker_facts marker_lines)

text \<open>What \<open>UnpatchExtensionJS\<close> keeps of a patched content.\<close>

lemma strip_patchCode:
  fixes c :: string
  defines "contentStr \<equiv> patchCode @ c"
  defines "endIdx1 \<equiv> Index contentStr PatchEndMarker + int (length PatchEndMarker)"
  shows "Index contentStr PatchEndMarker \<noteq> - 1"
    and "drop (nat (if endIdx1 < int (length contentStr) \<and> contentStr ! nat endIdx1 = CHR 0x0A
                     then endIdx1 + 1 else endIdx1)) contentStr = c"
proof -
  let ?b = "unlines (butlast patchLines)"
  have idx: "Index contentStr PatchEndMarker = int (length ?b)"
    unfolding contentStr_def by (rule Index_patchCode)
  then show "Index contentStr PatchEndMarker \<noteq> - 1" by simp
  have e1: "nat endIdx1 = length ?b + length PatchEndMarker"
    unfolding endIdx1_def idx by simp
  have cs: "contentStr = (?b @ PatchEndMarker) @ CHR 0x0A # c"
    unfolding contentStr_def by (simp add: patchCode_end)
  have lt: "endIdx1 < int (length contentStr)"
    unfolding endIdx1_def idx by (simp add: cs)
  have nth: "contentStr ! nat endIdx1 = CHR 0x0A"
    unfolding e1 cs by (metis length_append nth_append_length)
  have "nat (endIdx1 + 1) = length (?b @ PatchEndMarker) + 1"
    unfolding endIdx1_def idx by simp
  then have "drop (nat (endIdx1 + 1)) contentStr = c"
    unfolding cs by simp
  with lt nth show "drop (nat (if endIdx1 < int (length contentStr) \<and> contentStr ! nat endIdx1 = CHR 0x0A
                     then endIdx1 + 1 else endIdx1)) contentStr = c" by simp
qed

subsection \<open>The patch engine\<close>

lemma extension_rel_ne: "extension_rel g = Some rel \<Longrightarrow> rel \<noteq> []"
  by (auto simp: extension_rel_def split: if_splits)

lemma GetExtensionJSPath_ne: "GetExtensionJSPath E fs = Inr ext \<Longrightarrow> ext \<noteq> []"
  by (auto simp: GetExtensionJSPath_def Let_def split: sum.splits option.splits if_splits
      dest: extension_rel_ne)

lemma GetExtensionJSPath_eq:
  "GetExtensionJSPath E fs = Inr ext \<Longrightarrow> lookup ext fs' \<noteq> Inl ENOENT \<Longrightarrow>
   GetExtensionJSPath E fs' = Inr ext"
  by (auto simp: GetExtensionJSPath_def Let_def Stat_def split: sum.splits option.splits if_splits)

lemma read_prefix_file: "lookup p fs = Inr (File c) \<Longrightarrow> read_prefix fs p = Inr (take 1024 c)"
  by (simp add: read_prefix_def Open_def)

lemma IsPatched_file:
  "GetExtensionJSPath E fs = Inr ext \<Longrightarrow> lookup ext fs = Inr (File c) \<Longrightarrow>
   IsPatched E fs = Inr (Contains (take 1024 c) PatchMarker)"
  by (simp add: IsPatched_def read_prefix_file)

lemma IsOldPatched_file:
  "GetExtensionJSPath E fs = Inr ext \<Longrightarrow> lookup ext fs = Inr (File c) \<Longrightarrow>
   IsOldPatched E fs =
     Inr ((Contains (take 1024 c) OldPatchMarker \<or> Contains (take 1024 c) OldPatchMarkerV2)
          \<and> \<not> Contains (take 1024 c) PatchMarker)"
  by (simp add: IsOldPatched_def read_prefix_file Let_def)

lemma patch_idem:
  assumes "PatchExtensionJS E fs = (None, fs1)"
  shows "PatchExtensionJS E fs1 = (None, fs1) \<and> IsPatched E fs1 = Inr True"
proof -
  from assms obtain ext patched where ext: "GetExtensionJSPath E fs = Inr ext"
    and pat: "IsPatched E fs = Inr patched"
    by (auto simp: PatchExtensionJS_def split: sum.splits)
  show ?thesis
  proof (cases patched)
    case True
    with assms ext pat have "fs1 = fs" by (simp add: PatchExtensionJS_def)
    with assms pat True show ?thesis by simp
  next
    case False
    with assms ext pat obtain fs2 content where
      w: "WriteFile fs2 ext (patchCode @ content) = (None, fs1)"
      by (auto simp: PatchExtensionJS_def Let_def split: sum.splits prod.splits option.splits if_splits)
    from WriteFile_same[OF w] have l: "lookup ext fs1 = Inr (File (patchCode @ content))" .
    then have g: "GetExtensionJSPath E fs1 = Inr ext" using GetExtensionJSPath_eq[OF ext] by simp
    have p: "IsPatched E fs1 = Inr True"
      using IsPatched_file[OF g l] Contains_patchCode by simp
    with g show ?thesis by (simp add: PatchExtensionJS_def)
  qed
qed

lemma copyFile_ok:
  assumes src: "lookup src fs = Inr (File c)"
    and dst: "dst \<noteq> []" "lookup (butlast dst) fs = Inr (Dir es)" "\<And>es'. lookup dst fs \<noteq> Inr (Dir es')"
    and sib: "\<not> prefix src dst" "\<not> prefix dst src"
  shows "\<exists>fs'. copyFile fs src dst = (None, fs') \<and> lookup dst fs' = Inr (File c)
           \<and> (\<forall>q. \<not> prefix dst q \<and> \<not> prefix q dst \<longrightarrow> lookup q fs' = lookup q fs)"
proof -
  from WriteFile_ok[OF dst] obtain fs1 where c: "Create fs dst = (None, fs1)"
    by (auto simp: Create_def)
  then have w1: "WriteFile fs dst [] = (None, fs1)" by (simp add: Create_def)
  have o1: "\<And>q. \<not> prefix dst q \<Longrightarrow> \<not> prefix q dst \<Longrightarrow> lookup q fs1 = lookup q fs"
    using WriteFile_other[OF w1] by blast
  have s1: "lookup src fs1 = Inr (File c)" using o1[OF sib(2,1)] src by simp
  have d1: "lookup dst fs1 = Inr (File [])" using WriteFile_same[OF w1] .
  from WriteFile_over[OF d1 dst(1)] obtain fs2 where w2: "WriteFile fs1 dst c = (None, fs2)"
    by blast
  have o2: "\<And>q. \<not> prefix dst q \<Longrightarrow> \<not> prefix q dst \<Longrightarrow> lookup q fs2 = lookup q fs1"
    using WriteFile_other[OF w2] by blast
  have "copyFile fs src dst = (None, fs2)"
    using src c s1 w2 by (simp add: copyFile_def Open_def)
  moreover have "lookup dst fs2 = Inr (File c)" using WriteFile_same[OF w2] .
  ultimately show ?thesis using o1 o2 by auto
qed

lemma BackupExtensionJS_ok:
  assumes ext: "GetExtensionJSPath E fs = Inr ext" and fl: "lookup ext fs = Inr (File c)"
  shows "\<exists>fs'. BackupExtensionJS E fs = (None, fs') \<and> lookup ext fs' = Inr (File c)
           \<and> lookup (add_suffix ext BackupSuffix) fs' =
               (case lookup (add_suffix ext BackupSuffix) fs of
                  Inl e \<Rightarrow> Inr (File c) | Inr n \<Rightarrow> Inr n)"
proof -
  let ?b = "add_suffix ext BackupSuffix"
  have ne: "ext \<noteq> []" using GetExtensionJSPath_ne[OF ext] .
  have s: "BackupSuffix \<noteq> []" by (simp add: BackupSuffix_def)
  note sib = add_suffix_sibling[OF ne s]
  show ?thesis
  proof (cases "lookup ?b fs")
    case (Inr n)
    then show ?thesis using ext fl by (simp add: BackupExtensionJS_def Let_def Stat_def)
  next
    case (Inl e)
    from lookup_parent[OF fl ne] obtain es where "lookup (butlast ext) fs = Inr (Dir es)"
      by blast
    then have par: "lookup (butlast ?b) fs = Inr (Dir es)" using sib(3) by simp
    have nd: "\<And>es'. lookup ?b fs \<noteq> Inr (Dir es')" using Inl by simp
    from copyFile_ok[OF fl sib(4) par nd sib(1,2)] obtain fs' where
      c: "copyFile fs ext ?b = (None, fs')" and d: "lookup ?b fs' = Inr (File c)"
      and o: "\<forall>q. \<not> prefix ?b q \<and> \<not> prefix q ?b \<longrightarrow> lookup q fs' = lookup q fs"
      by blast
    from o sib(1,2) have "lookup ext fs' = lookup ext fs" by blast
    then show ?thesis using ext fl Inl c d
      by (simp add: BackupExtensionJS_def Let_def Stat_def)
  qed
qed

lemma patch_fresh:
  assumes ext: "GetExtensionJSPath E fs = Inr ext" and fl: "lookup ext fs = Inr (File c)"
    and np: "\<not> Contains (take 1024 c) PatchMarker"
    and no: "\<not> Contains (take 1024 c) OldPatchMarker" "\<not> Contains (take 1024 c) OldPatchMarkerV2"
  shows "\<exists>fs1. PatchExtensionJS E fs = (None, fs1)
           \<and> GetExtensionJSPath E fs1 = Inr ext
           \<and> lookup ext fs1 = Inr (File (patchCode @ c))
           \<and> lookup (add_suffix ext BackupSuffix) fs1 =
               (case lookup (add_suffix ext BackupSuffix) fs of
                  Inl e \<Rightarrow> Inr (File c) | Inr n \<Rightarrow> Inr n)"
proof -
  let ?b = "add_suffix ext BackupSuffix"
  have ne: "ext \<noteq> []" using GetExtensionJSPath_ne[OF ext] .
  have s: "BackupSuffix \<noteq> []" by (simp add: BackupSuffix_def)
  note sib = add_suffix_sibling[OF ne s]
  have p: "IsPatched E fs = Inr False" using IsPatched_file[OF ext fl] np by simp
  have q: "IsOldPatched E fs = Inr False" using IsOldPatched_file[OF ext fl] no by simp
  from BackupExtensionJS_ok[OF ext fl] obtain fs2 where
    b: "BackupExtensionJS E fs = (None, fs2)" and f2: "lookup ext fs2 = Inr (File c)"
    and b2: "lookup ?b fs2 = (case lookup ?b fs of Inl e \<Rightarrow> Inr (File c) | Inr n \<Rightarrow> Inr n)"
    by blast
  from WriteFile_over[OF f2 ne] obtain fs3 where
    w: "WriteFile fs2 ext (patchCode @ c) = (None, fs3)" by blast
  have r: "ReadFile fs2 ext = Inr c" using f2 by (simp add: ReadFile_File)
  have "PatchExtensionJS E fs = (None, fs3)"
    using ext p q b r w by (simp add: PatchExtensionJS_def Let_def)
  moreover have l3: "lookup ext fs3 = Inr (File (patchCode @ c))" using WriteFile_same[OF w] .
  moreover have "GetExtensionJSPath E fs3 = Inr ext" using GetExtensionJSPath_eq[OF ext] l3 by simp
  moreover have "lookup ?b fs3 = lookup ?b fs2" using WriteFile_other[OF w sib(1,2)] .
  ultimately show ?thesis using b2 by simp
qed

lemma unpatch_patched:
  assumes ext: "GetExtensionJSPath E fs = Inr ext"
    and fl: "lookup ext fs = Inr (File (patchCode @ c))"
  shows "\<exists>fs'. UnpatchExtensionJS E fs = (None, fs')
           \<and> GetExtensionJSPath E fs' = Inr ext
           \<and> lookup ext fs' = Inr (File c)
           \<and> lookup (add_suffix ext BackupSuffix) fs' = lookup (add_suffix ext BackupSuffix) fs"
proof -
  let ?b = "add_suffix ext BackupSuffix"
  have ne: "ext \<noteq> []" using GetExtensionJSPath_ne[OF ext] .
  have s: "BackupSuffix \<noteq> []" by (simp add: BackupSuffix_def)
  note sib = add_suffix_sibling[OF ne s]
  have p: "IsPatched E fs = Inr True"
    using IsPatched_file[OF ext fl] Contains_patchCode by simp
  have q: "IsOldPatched E fs = Inr False"
    using IsOldPatched_file[OF ext fl] Contains_patchCode by simp
  have r: "ReadFile fs ext = Inr (patchCode @ c)" using fl by (simp add: ReadFile_File)
  from WriteFile_over[OF fl ne] obtain fs' where w: "WriteFile fs ext c = (None, fs')" by blast
  have "UnpatchExtensionJS E fs = (None, fs')"
    using ext p q r w strip_patchCode[of c]
    by (simp add: UnpatchExtensionJS_def Let_def)
  moreover have l: "lookup ext fs' = Inr (File c)" using WriteFile_same[OF w] .
  moreover have "GetExtensionJSPath E fs' = Inr ext" using GetExtensionJSPath_eq[OF ext] l by simp
  moreover have "lookup ?b fs' = lookup ?b fs" using WriteFile_other[OF w sib(1,2)] .
  ultimately show ?thesis by simp
qed

section \<open>Laws of the snapshot store and of the hard reset\<close>

subsection \<open>Joining a file name\<close>

lemma split_sep_plain: "CHR ''/'' \<notin> set s \<Longrightarrow> split_sep s = [s]"
  by (induction s) auto

lemma Join_valid: "valid_name s \<Longrightarrow> Join p s = p @ [s]"
  by (simp add: valid_name_def Join_def split_sep_plain join_step_def)

subsection \<open>The hard reset\<close>



subsection \<open>Paths below a directory\<close>

lemma lookup_append:
  "lookup (p @ q) fs = (case lookup p fs of Inl e \<Rightarrow> Inl e | Inr n \<Rightarrow> lookup q n)"
proof (induction p fs rule: lookup.induct)
  case (1 n)
  then show ?case by simp
next
  case (2 c cs d)
  then show ?case by simp
next
  case (3 c cs es)
  then show ?case by (simp split: option.splits)
qed


subsection \<open>Listing the snapshots\<close>

lemma entry_names_set: "set (entry_names es) = {c \<in> fst ` set es. valid_name c}"
  by (auto simp: entry_names_def)

lemma entry_names_distinct: "distinct (entry_names es)"
  by (simp add: entry_names_def)

lemma entry_is_dir_iff: "entry_is_dir es c \<longleftrightarrow> (\<exists>es'. map_of es c = Some (Dir es'))"
  by (auto simp: entry_is_dir_def split: option.splits node.splits elim: IsDir.elims)

lemma list_entries_eq:
  "list_entries E fs rootPath entries
     = map (\<lambda>e. backup_info E fs rootPath (fst e)) (filter snd entries)"
  by (induction entries) auto

lemma backup_info_Name [simp]: "Name (backup_info E fs rootPath name) = name"
  by (simp add: backup_info_def Let_def split: sum.splits)

lemma backup_info_HasToken:
  "HasToken (backup_info E fs rootPath name)
     = (\<exists>info. Stat fs (Join rootPath name @ [KiroAuthTokenFile]) = Inr info)"
  by (simp add: backup_info_def Let_def split: sum.splits)

lemma backup_info_HasMachineID:
  "HasMachineID (backup_info E fs rootPath name)
     = (\<exists>data. ReadFile fs (Join rootPath name @ [MachineIDFileName]) = Inr data)"
  by (simp add: backup_info_def Let_def split: sum.splits)

lemma backup_info_time:
  "InfoBackupTime (backup_info E fs rootPath name)
     = (case ReadFile fs (Join rootPath name @ [MachineIDFileName]) of
          Inl e \<Rightarrow> 0
        | Inr data \<Rightarrow>
            (case Unmarshal_MachineIDBackup E data of
               Inl e \<Rightarrow> 0
             | Inr mid \<Rightarrow>
                 if BackupTime mid = [] then 0
                 else (case time_Parse_RFC3339 E (BackupTime mid) of
                         Inl e \<Rightarrow> 0 | Inr t \<Rightarrow> t)))"
  by (simp add: backup_info_def Let_def split: sum.splits)

lemma BackupExists_valid:
  assumes "GetBackupRootPath E = Inr rootPath" "valid_name name"
  shows "BackupExists E fs name \<longleftrightarrow> (\<exists>es. lookup (rootPath @ [name]) fs = Inr (Dir es))"
proof -
  from assms(2) have "name \<noteq> []" by (auto simp: valid_name_def)
  then show ?thesis using assms
    by (auto simp: BackupExists_def GetBackupPath_def Join_valid Stat_def
        split: sum.splits node.splits elim: IsDir.elims)
qed

text \<open>The names \<open>ListBackups\<close> lists: once each, the file names of the directories under the root.\<close>

lemma ListBackups_names:
  assumes root: "GetBackupRootPath E = Inr rootPath" and list: "ListBackups E fs = Inr backups"
  shows "distinct (map Name backups)"
    and "set (map Name backups) = {name. valid_name name \<and> BackupExists E fs name}"
    and "\<forall>b\<in>set backups. b = backup_info E fs rootPath (Name b) \<and> valid_name (Name b)"
proof -
  have ex: "\<And>name. valid_name name \<Longrightarrow>
      BackupExists E fs name \<longleftrightarrow> (\<exists>es. lookup (rootPath @ [name]) fs = Inr (Dir es))"
    using BackupExists_valid[OF root] by blast
  show "distinct (map Name backups)"
    and "set (map Name backups) = {name. valid_name name \<and> BackupExists E fs name}"
    and "\<forall>b\<in>set backups. b = backup_info E fs rootPath (Name b) \<and> valid_name (Name b)"
  proof (atomize (full), cases "lookup rootPath fs")
    case (Inl e)
    then have none: "\<And>name. \<not> (\<exists>es. lookup (rootPath @ [name]) fs = Inr (Dir es))"
      by (simp add: lookup_append)
    from Inl list root have "backups = []"
      by (auto simp: ListBackups_def Stat_def ReadDir_def split: if_splits)
    then show "distinct (map Name backups)
        \<and> set (map Name backups) = {name. valid_name name \<and> BackupExists E fs name}
        \<and> (\<forall>b\<in>set backups. b = backup_info E fs rootPath (Name b) \<and> valid_name (Name b))"
      using ex none by auto
  next
    case (Inr n)
    with list root obtain es where n: "lookup rootPath fs = Inr (Dir es)"
      and b: "backups = list_entries E fs rootPath (map (\<lambda>c. (c, entry_is_dir es c)) (entry_names es))"
      by (auto simp: ListBackups_def Stat_def ReadDir_def split: node.splits)
    have names: "map Name backups = filter (entry_is_dir es) (entry_names es)"
      unfolding b list_entries_eq by (simp add: filter_map comp_def)
    have look: "\<And>name. lookup (rootPath @ [name]) fs
        = (case map_of es name of None \<Rightarrow> Inl ENOENT | Some x \<Rightarrow> Inr x)"
      by (simp add: lookup_append n split: option.splits)
    have d: "distinct (map Name backups)"
      unfolding names by (simp add: entry_names_distinct)
    have s: "set (map Name backups) = {name. valid_name name \<and> BackupExists E fs name}"
    proof (intro set_eqI iffI)
      fix x assume "x \<in> set (map Name backups)"
      then have "valid_name x" "entry_is_dir es x"
        unfolding names by (auto simp: entry_names_set)
      then show "x \<in> {name. valid_name name \<and> BackupExists E fs name}"
        using ex[of x] look[of x] by (auto simp: entry_is_dir_iff)
    next
      fix x assume "x \<in> {name. valid_name name \<and> BackupExists E fs name}"
      then have v: "valid_name x" and "\<exists>es'. lookup (rootPath @ [x]) fs = Inr (Dir es')"
        using ex by auto
      then obtain es' where m: "map_of es x = Some (Dir es')"
        using look[of x] by (auto split: option.splits)
      then have "x \<in> fst ` set es" by (force dest: map_of_SomeD)
      with v m show "x \<in> set (map Name backups)"
        unfolding names by (auto simp: entry_names_set entry_is_dir_iff)
    qed
    have i: "\<forall>b\<in>set backups. b = backup_info E fs rootPath (Name b) \<and> valid_name (Name b)"
      unfolding b list_entries_eq by (auto simp: entry_names_set)
    from d s i show "distinct (map Name backups)
        \<and> set (map Name backups) = {name. valid_name name \<and> BackupExists E fs name}
        \<and> (\<forall>b\<in>set backups. b = backup_info E fs rootPath (Name b) \<and> valid_name (Name b))"
      by blast
  qed
qed

subsection \<open>Creating and removing directories\<close>











subsection \<open>Creating a snapshot\<close>



lemma MkdirAll_Some: "MkdirAll fs p = (Some e, fs') \<Longrightarrow> fs' = fs \<and> mkdir_all p fs = Inl e"
  by (auto simp: MkdirAll_def run_def split: sum.splits)







section \<open>Laws of Go's strings: white space\<close>

lemma find_white_space_all:
  "list_all (\<lambda>r. find (\<lambda>r'. r' \<noteq> [] \<and> HasPrefix (r @ s) r') white_space = Some r) white_space"
  by (simp add: white_space_def)

lemma find_white_space:
  "r \<in> set white_space \<Longrightarrow> find (\<lambda>r'. r' \<noteq> [] \<and> HasPrefix (r @ s) r') white_space = Some r"
  using find_white_space_all[of s] by (simp add: list_all_iff)

lemma white_space_nonempty: "r \<in> set white_space \<Longrightarrow> r \<noteq> []"
  by (auto simp: white_space_def)

lemma trim_runes_white:
  assumes "r \<in> set white_space"
  shows "trim_runes white_space (r @ s) = trim_runes white_space s"
proof -
  from white_space_nonempty[OF assms] obtain c cs where r: "r = c # cs" by (cases r) auto
  from find_white_space[OF assms, of s] r show ?thesis by simp
qed

lemma trim_runes_white_only:
  "set ws \<subseteq> set white_space \<Longrightarrow> trim_runes white_space (concat ws) = []"
  by (induction ws) (simp_all add: trim_runes_white)

lemma TrimSpace_white_only: "set ws \<subseteq> set white_space \<Longrightarrow> TrimSpace (concat ws) = []"
  by (simp add: TrimSpace_def trim_runes_white_only)

lemma HasPrefix_decompose: "HasPrefix s r \<Longrightarrow> s = r @ drop (length r) s"
  by (induction s r rule: HasPrefix.induct) auto

lemma trim_runes_Nil_concat:
  "trim_runes rs s = [] \<Longrightarrow> \<exists>ws. set ws \<subseteq> set rs \<and> s = concat ws"
proof (induction rs s rule: trim_runes.induct)
  case (1 rs)
  have "set [] \<subseteq> set rs \<and> [] = concat ([] :: string list)" by simp
  then show ?case by blast
next
  case (2 rs c cs)
  show ?case
  proof (cases "find (\<lambda>r. r \<noteq> [] \<and> HasPrefix (c # cs) r) rs")
    case None
    with 2(2) show ?thesis by simp
  next
    case (Some r)
    then have r: "r \<in> set rs" "r \<noteq> []" "HasPrefix (c # cs) r"
      by (auto simp: find_Some_iff)
    from 2(2) Some have "trim_runes rs (drop (length r - 1) cs) = []" by simp
    from 2(1)[OF Some this] obtain ws where
      ws: "set ws \<subseteq> set rs" "drop (length r - 1) cs = concat ws" by blast
    from r(2) have "drop (length r) (c # cs) = drop (length r - 1) cs" by (cases r) auto
    with HasPrefix_decompose[OF r(3)] ws(2) have "c # cs = concat (r # ws)" by simp
    moreover from r(1) ws(1) have "set (r # ws) \<subseteq> set rs" by simp
    ultimately show ?thesis by blast
  qed
qed

lemma trim_runes_stops:
  "trim_runes rs s = t \<Longrightarrow> t \<noteq> [] \<Longrightarrow> find (\<lambda>r. r \<noteq> [] \<and> HasPrefix t r) rs = None"
proof (induction rs s rule: trim_runes.induct)
  case (1 rs)
  then show ?case by simp
next
  case (2 rs c cs)
  show ?case
  proof (cases "find (\<lambda>r. r \<noteq> [] \<and> HasPrefix (c # cs) r) rs")
    case None
    with 2(2) show ?thesis by simp
  next
    case (Some r)
    with 2(2) have "trim_runes rs (drop (length r - 1) cs) = t" by simp
    from 2(1)[OF Some this 2(3)] show ?thesis .
  qed
qed

lemma concat_white_space_starts:
  assumes "set vs \<subseteq> set white_space" "concat vs \<noteq> []"
  shows "\<exists>r \<in> set white_space. \<exists>x. concat vs = r @ x"
  using assms by (cases vs) auto

text \<open>A string trims to the empty string exactly when it is white space only.\<close>

lemma TrimSpace_empty_iff:
  "TrimSpace s = [] \<longleftrightarrow> (\<exists>ws. set ws \<subseteq> set white_space \<and> s = concat ws)"
proof
  assume e: "TrimSpace s = []"
  define t where "t = trim_runes white_space s"
  from e have "trim_runes (map rev white_space) (rev t) = []" by (simp add: TrimSpace_def t_def)
  from trim_runes_Nil_concat[OF this] obtain ws where
    ws: "set ws \<subseteq> set (map rev white_space)" "rev t = concat ws" by blast
  define vs where "vs = rev (map rev ws)"
  have vs: "set vs \<subseteq> set white_space"
  proof
    fix v assume "v \<in> set vs"
    then obtain w where w: "w \<in> set ws" "v = rev w" by (auto simp: vs_def)
    with ws(1) obtain r where "r \<in> set white_space" "w = rev r" by auto
    with w show "v \<in> set white_space" by simp
  qed
  have "t = rev (concat ws)" using ws(2) by (metis rev_rev_ident)
  then have t: "t = concat vs" by (simp add: vs_def rev_concat rev_map)
  have "t = []"
  proof (rule ccontr)
    assume ne: "t \<noteq> []"
    with concat_white_space_starts[OF vs] t obtain r x where
      r: "r \<in> set white_space" "t = r @ x" by auto
    from find_white_space[OF r(1), of x] r(2)
    have "find (\<lambda>r'. r' \<noteq> [] \<and> HasPrefix t r') white_space = Some r" by simp
    moreover from trim_runes_stops[OF t_def[symmetric] ne]
    have "find (\<lambda>r. r \<noteq> [] \<and> HasPrefix t r) white_space = None" .
    ultimately show False by simp
  qed
  then have "trim_runes white_space s = []" by (simp add: t_def)
  from trim_runes_Nil_concat[OF this] show "\<exists>ws. set ws \<subseteq> set white_space \<and> s = concat ws" .
next
  assume "\<exists>ws. set ws \<subseteq> set white_space \<and> s = concat ws"
  then show "TrimSpace s = []" using TrimSpace_white_only by auto
qed

lemma TrimSpace_examples:
  "TrimSpace [CHR 0xC2, CHR 0xA0, CHR 0x0A] = []"
  "TrimSpace ([CHR 0xE3, CHR 0x80, CHR 0x80] @ ''ab c'' @ [CHR 0x0D, CHR 0x0A, CHR 0xE2, CHR 0x80, CHR 0xA8]) = ''ab c''"
  "TrimSpace [CHR 0xA0, CHR 0x20] = [CHR 0xA0]"
  "TrimSpace [CHR 0x20, CHR 0xC2] = [CHR 0xC2]"
  by (simp_all add: TrimSpace_def white_space_def)

section \<open>Facts about the example worlds\<close>

lemma lookup_tree_at: "lookup p (tree_at p n) = Inr n"
  by (induction p) auto

lemma E0_ext: "GetKiroInstallPath E0 = Inr [''opt'', ''Kiro'']" "GOOS E0 = ''linux''"
  "GetKiroHomePath E0 = Inr [''home'', ''u'', ''.kiro'']"
  by (simp_all add: E0_def)

lemma ext0_path: "[''opt'', ''Kiro''] @ the (extension_rel ''linux'') = ext0"
  by (simp add: extension_rel_def ext0_def)

lemma GetExtensionJSPath_E0: "lookup ext0 fs \<noteq> Inl ENOENT \<Longrightarrow> GetExtensionJSPath E0 fs = Inr ext0"
  using ext0_path
  by (auto simp: GetExtensionJSPath_def E0_ext Let_def Stat_def extension_rel_def
      split: sum.splits)

lemma backup0_path: "add_suffix ext0 BackupSuffix = backup0"
  by (simp add: add_suffix_def ext0_def backup0_def BackupSuffix_def)

lemma lookup_backup0_tree: "lookup backup0 (tree_at ext0 n) = Inl ENOENT"
  by (simp add: backup0_def ext0_def)

lemma not_Contains: "m \<noteq> [] \<Longrightarrow> occurrences s m = 0 \<Longrightarrow> \<not> Contains s m"
  by (simp add: Contains_def Index_def occurrences_0_index)

lemma console_markers:
  "\<not> Contains (take 1024 ''console.log(1)'') PatchMarker"
  "\<not> Contains (take 1024 ''console.log(1)'') OldPatchMarker"
  "\<not> Contains (take 1024 ''console.log(1)'') OldPatchMarkerV2"
  "occurrences ''console.log(1)'' PatchMarker = 0"
  by (simp_all add: Contains_def Index_def PatchMarker_def OldPatchMarker_def OldPatchMarkerV2_def)

lemma occurrences_replicate:
  "m \<noteq> [] \<Longrightarrow> hd m \<noteq> x \<Longrightarrow> occurrences (replicate n x @ s) m = occurrences s m"
proof (induction n)
  case 0
  then show ?case by simp
next
  case (Suc n)
  then have "\<not> HasPrefix (x # replicate n x @ s) m" by (cases m) auto
  with Suc show ?case by simp
qed

lemma deep_markers:
  "\<not> Contains (take 1024 (replicate 1024 (CHR ''a'') @ PatchMarker)) PatchMarker"
  "\<not> Contains (take 1024 (replicate 1024 (CHR ''a'') @ PatchMarker)) OldPatchMarker"
  "\<not> Contains (take 1024 (replicate 1024 (CHR ''a'') @ PatchMarker)) OldPatchMarkerV2"
  "occurrences (replicate 1024 (CHR ''a'') @ PatchMarker) PatchMarker = 1"
proof -
  have a: "CHR ''a'' \<notin> set m \<Longrightarrow> m \<noteq> [] \<Longrightarrow> \<not> Contains (replicate 1024 (CHR ''a'')) m" for m
    by (rule not_Contains, assumption, rule occurrences_no_char[of "hd m"]) (cases m; auto)+
  show "\<not> Contains (take 1024 (replicate 1024 (CHR ''a'') @ PatchMarker)) PatchMarker"
    "\<not> Contains (take 1024 (replicate 1024 (CHR ''a'') @ PatchMarker)) OldPatchMarker"
    "\<not> Contains (take 1024 (replicate 1024 (CHR ''a'') @ PatchMarker)) OldPatchMarkerV2"
    by (simp_all add: a PatchMarker_def OldPatchMarker_def OldPatchMarkerV2_def)
  have "occurrences (replicate 1024 (CHR ''a'') @ PatchMarker) PatchMarker = occurrences PatchMarker PatchMarker"
    by (rule occurrences_replicate) (simp_all add: PatchMarker_def)
  also have "\<dots> = 1" by (simp add: PatchMarker_def)
  finally show "occurrences (replicate 1024 (CHR ''a'') @ PatchMarker) PatchMarker = 1" .
qed

section \<open>The patch engine's claims\<close>

text \<open>
  Claim C3, as amended. Whenever \<open>PatchExtensionJS\<close> succeeds, applying it again is a
  success that changes nothing, and the artifact is in the patched-current state.
  For an unpatched artifact (a regular file without a marker of any version in its
  first 1024 bytes) the first application succeeds and prepends the payload once: the
  start marker then occurs once more often than in the original content, so exactly
  once when the original content does not contain it.
\<close>

theorem PatchExtensionJS_twice:
  "(PatchExtensionJS E fs = (None, fs1) \<longrightarrow>
      PatchExtensionJS E fs1 = (None, fs1) \<and> IsPatched E fs1 = Inr True)
   \<and> (GetExtensionJSPath E fs = Inr ext \<and> ReadFile fs ext = Inr c
        \<and> \<not> Contains (take 1024 c) PatchMarker
        \<and> \<not> Contains (take 1024 c) OldPatchMarker
        \<and> \<not> Contains (take 1024 c) OldPatchMarkerV2 \<longrightarrow>
      (\<exists>fs'. PatchExtensionJS E fs = (None, fs')
          \<and> ReadFile fs' ext = Inr (patchCode @ c)
          \<and> occurrences (patchCode @ c) PatchMarker = 1 + occurrences c PatchMarker))"
proof (intro conjI impI)
  assume "PatchExtensionJS E fs = (None, fs1)"
  from patch_idem[OF this] show "PatchExtensionJS E fs1 = (None, fs1)" "IsPatched E fs1 = Inr True"
    by simp_all
next
  assume h: "GetExtensionJSPath E fs = Inr ext \<and> ReadFile fs ext = Inr c
        \<and> \<not> Contains (take 1024 c) PatchMarker
        \<and> \<not> Contains (take 1024 c) OldPatchMarker
        \<and> \<not> Contains (take 1024 c) OldPatchMarkerV2"
  then have l: "lookup ext fs = Inr (File c)" by (simp add: ReadFile_File)
  from h patch_fresh[OF _ l] obtain fs' where
    "PatchExtensionJS E fs = (None, fs')" "lookup ext fs' = Inr (File (patchCode @ c))"
    by blast
  then show "\<exists>fs'. PatchExtensionJS E fs = (None, fs')
          \<and> ReadFile fs' ext = Inr (patchCode @ c)
          \<and> occurrences (patchCode @ c) PatchMarker = 1 + occurrences c PatchMarker"
    by (auto simp: ReadFile_File occurrences_patchCode)
qed

theorem PatchExtensionJS_twice_witness:
  "\<exists>fs1. PatchExtensionJS E0 fs_fresh = (None, fs1)
     \<and> PatchExtensionJS E0 fs1 = (None, fs1)
     \<and> IsPatched E0 fs1 = Inr True
     \<and> ReadFile fs1 ext0 = Inr (patchCode @ ''console.log(1)'')
     \<and> occurrences (patchCode @ ''console.log(1)'') PatchMarker = 1"
proof -
  have l: "lookup ext0 fs_fresh = Inr (File ''console.log(1)'')"
    by (simp add: fs_fresh_def lookup_tree_at)
  then have g: "GetExtensionJSPath E0 fs_fresh = Inr ext0" by (simp add: GetExtensionJSPath_E0)
  have r: "ReadFile fs_fresh ext0 = Inr ''console.log(1)''" using l by (simp add: ReadFile_File)
  from PatchExtensionJS_twice[of E0 fs_fresh _ ext0 "''console.log(1)''"] g r console_markers
  obtain fs1 where 1: "PatchExtensionJS E0 fs_fresh = (None, fs1)"
    and 2: "ReadFile fs1 ext0 = Inr (patchCode @ ''console.log(1)'')"
    and 3: "occurrences (patchCode @ ''console.log(1)'') PatchMarker = 1"
    by auto
  from PatchExtensionJS_twice[of E0 fs_fresh fs1] 1
  have "PatchExtensionJS E0 fs1 = (None, fs1)" "IsPatched E0 fs1 = Inr True" by simp_all
  with 1 2 3 show ?thesis by blast
qed

text \<open>
  The claim as stated fails for an artifact that holds the start marker behind its first
  1024 bytes: both applications succeed, and the marker then occurs twice.
\<close>

theorem PatchExtensionJS_twice_counterexample:
  "fst (PatchExtensionJS E0 fs_deep) = None
   \<and> fst (PatchExtensionJS E0 (snd (PatchExtensionJS E0 fs_deep))) = None
   \<and> (case ReadFile (snd (PatchExtensionJS E0 (snd (PatchExtensionJS E0 fs_deep)))) ext0 of
         Inl e \<Rightarrow> 0
       | Inr content \<Rightarrow> occurrences content PatchMarker) = 2"
proof -
  let ?c = "replicate 1024 (CHR ''a'') @ PatchMarker"
  have l: "lookup ext0 fs_deep = Inr (File ?c)"
    by (simp add: fs_deep_def lookup_tree_at)
  then have g: "GetExtensionJSPath E0 fs_deep = Inr ext0" by (simp add: GetExtensionJSPath_E0)
  from patch_fresh[OF g l deep_markers(1,2,3)] obtain fs1 where
    1: "PatchExtensionJS E0 fs_deep = (None, fs1)"
    and 2: "lookup ext0 fs1 = Inr (File (patchCode @ ?c))"
    by blast
  from patch_idem[OF 1] have 3: "PatchExtensionJS E0 fs1 = (None, fs1)" by simp
  have "occurrences (patchCode @ ?c) PatchMarker = 2"
    by (simp add: occurrences_patchCode deep_markers(4))
  with 1 2 3 show ?thesis by (simp add: ReadFile_def)
qed

text \<open>
  Claim C4, as amended. For a target artifact that holds \<open>console.log(1)\<close>, with no
  sibling backup file, \<open>PatchExtensionJS\<close> and then \<open>UnpatchExtensionJS\<close> both succeed and
  restore the artifact to the same bytes; the sibling backup file that the patch created
  stays in place and holds the same bytes.
\<close>

theorem patch_then_unpatch:
  assumes "GetExtensionJSPath E fs = Inr ext"
    and "ReadFile fs ext = Inr ''console.log(1)''"
    and "Stat fs (add_suffix ext BackupSuffix) = Inl ENOENT"
  shows "\<exists>fs1 fs2. PatchExtensionJS E fs = (None, fs1)
           \<and> UnpatchExtensionJS E fs1 = (None, fs2)
           \<and> ReadFile fs2 ext = Inr ''console.log(1)''
           \<and> ReadFile fs2 (add_suffix ext BackupSuffix) = Inr ''console.log(1)''"
proof -
  from assms(2) have l: "lookup ext fs = Inr (File ''console.log(1)'')" by (simp add: ReadFile_File)
  from patch_fresh[OF assms(1) l console_markers(1,2,3)] assms(3) obtain fs1 where
    1: "PatchExtensionJS E fs = (None, fs1)" and g1: "GetExtensionJSPath E fs1 = Inr ext"
    and l1: "lookup ext fs1 = Inr (File (patchCode @ ''console.log(1)''))"
    and b1: "lookup (add_suffix ext BackupSuffix) fs1 = Inr (File ''console.log(1)'')"
    by (auto simp: Stat_def)
  from unpatch_patched[OF g1 l1] b1 obtain fs2 where
    "UnpatchExtensionJS E fs1 = (None, fs2)" "lookup ext fs2 = Inr (File ''console.log(1)'')"
    "lookup (add_suffix ext BackupSuffix) fs2 = Inr (File ''console.log(1)'')"
    by auto
  with 1 show ?thesis by (auto simp: ReadFile_File)
qed

theorem patch_then_unpatch_witness:
  "\<exists>fs1 fs2. PatchExtensionJS E0 fs_fresh = (None, fs1)
           \<and> UnpatchExtensionJS E0 fs1 = (None, fs2)
           \<and> ReadFile fs2 ext0 = Inr ''console.log(1)''
           \<and> ReadFile fs2 backup0 = Inr ''console.log(1)''"
proof -
  have l: "lookup ext0 fs_fresh = Inr (File ''console.log(1)'')"
    by (simp add: fs_fresh_def lookup_tree_at)
  then have g: "GetExtensionJSPath E0 fs_fresh = Inr ext0" by (simp add: GetExtensionJSPath_E0)
  have r: "ReadFile fs_fresh ext0 = Inr ''console.log(1)''" using l by (simp add: ReadFile_File)
  have b: "Stat fs_fresh (add_suffix ext0 BackupSuffix) = Inl ENOENT"
    by (simp add: Stat_def backup0_path fs_fresh_def lookup_backup0_tree)
  from patch_then_unpatch[OF g r b] show ?thesis by (simp add: backup0_path)
qed

text \<open>
  The claim as stated fails: after \<open>PatchExtensionJS\<close> and \<open>UnpatchExtensionJS\<close> on that
  artifact the sibling backup file is still there.
\<close>

theorem patch_then_unpatch_counterexample:
  "fst (PatchExtensionJS E0 fs_fresh) = None
   \<and> fst (UnpatchExtensionJS E0 (snd (PatchExtensionJS E0 fs_fresh))) = None
   \<and> Stat (snd (UnpatchExtensionJS E0 (snd (PatchExtensionJS E0 fs_fresh)))) backup0
       = Inr (File ''console.log(1)'')"
proof -
  have l: "lookup ext0 fs_fresh = Inr (File ''console.log(1)'')"
    by (simp add: fs_fresh_def lookup_tree_at)
  then have g: "GetExtensionJSPath E0 fs_fresh = Inr ext0" by (simp add: GetExtensionJSPath_E0)
  have b: "lookup backup0 fs_fresh = Inl ENOENT"
    by (simp add: fs_fresh_def lookup_backup0_tree)
  from patch_fresh[OF g l console_markers(1,2,3)] b obtain fs1 where
    1: "PatchExtensionJS E0 fs_fresh = (None, fs1)" and g1: "GetExtensionJSPath E0 fs1 = Inr ext0"
    and l1: "lookup ext0 fs1 = Inr (File (patchCode @ ''console.log(1)''))"
    and b1: "lookup backup0 fs1 = Inr (File ''console.log(1)'')"
    by (auto simp: backup0_path)
  from unpatch_patched[OF g1 l1] b1 obtain fs2 where
    "UnpatchExtensionJS E0 fs1 = (None, fs2)" "lookup backup0 fs2 = Inr (File ''console.log(1)'')"
    by (auto simp: backup0_path)
  with 1 show ?thesis by (simp add: Stat_def)
qed

section \<open>The status query's claims\<close>

text \<open>
  Claim C8. \<open>GetSoftResetStatus\<close> returns no error in any state of the disk and for any
  answer of the path resolver. Each field comes from its own query: the patched flag
  is \<open>IsPatched\<close>'s answer, or false when that fails; the has-override flag and the override
  value are \<open>ReadCustomMachineID\<close>'s answer, or false and empty when that fails; the
  artifact path is \<open>GetExtensionJSPath\<close>'s answer, or empty when that fails.
\<close>

theorem GetSoftResetStatus_infallible:
  "snd (GetSoftResetStatus E fs) = None
   \<and> IsPatched_field (fst (GetSoftResetStatus E fs))
       = (case IsPatched E fs of Inl e \<Rightarrow> False | Inr patched \<Rightarrow> patched)
   \<and> HasCustomID (fst (GetSoftResetStatus E fs))
       = (case ReadCustomMachineID E fs of Inl e \<Rightarrow> False | Inr customID \<Rightarrow> True)
   \<and> CustomMachineID (fst (GetSoftResetStatus E fs))
       = (case ReadCustomMachineID E fs of Inl e \<Rightarrow> [] | Inr customID \<Rightarrow> customID)
   \<and> ExtensionPath (fst (GetSoftResetStatus E fs))
       = (case GetExtensionJSPath E fs of Inl e \<Rightarrow> [] | Inr extPath \<Rightarrow> path_string extPath)"
  by (simp add: GetSoftResetStatus_def Let_def split: sum.splits)

text \<open>
  With an override file and no IDE installed, the patch query and the path query fail
  and the status still reports the override.
\<close>

theorem GetSoftResetStatus_infallible_witness:
  "IsPatched E0 fs_override = Inl ErrExtensionNotFound
   \<and> GetSoftResetStatus E0 fs_override
       = (\<lparr>IsPatched_field = False, HasCustomID = True, CustomMachineID = ''abc-123'',
           ExtensionPath = []\<rparr>, None)"
proof -
  have g: "GetExtensionJSPath E0 fs_override = Inl ErrExtensionNotFound"
    by (simp add: GetExtensionJSPath_def E0_ext extension_rel_def Stat_def fs_override_def)
  then have p: "IsPatched E0 fs_override = Inl ErrExtensionNotFound" by (simp add: IsPatched_def)
  have r: "ReadCustomMachineID E0 fs_override = Inr ''abc-123''"
    by (simp add: ReadCustomMachineID_def GetCustomMachineIDPath_def E0_ext
        CustomMachineIDFileName_def ReadFile_def fs_override_def TrimSpace_def white_space_def)
  obtain st err where s: "GetSoftResetStatus E0 fs_override = (st, err)"
    by (cases "GetSoftResetStatus E0 fs_override")
  from GetSoftResetStatus_infallible[of E0 fs_override] g p r s
  have "err = None" "IsPatched_field st = False" "HasCustomID st = True"
    "CustomMachineID st = ''abc-123''" "ExtensionPath st = []" by simp_all
  then have "st = \<lparr>IsPatched_field = False, HasCustomID = True, CustomMachineID = ''abc-123'',
           ExtensionPath = []\<rparr>" by (cases st) simp
  with s p \<open>err = None\<close> show ?thesis by simp
qed



section \<open>The hard reset's claims\<close>

lemma E_admin_fields:
  "GOOS E_admin = ''windows''" "GetRawMachineId E_admin = Inr ''0123abcd''"
  "Executable E_admin = Inr [''opt'', ''kiro-manager'', ''kiro-manager'']"
  "UserHomeDir E_admin = Inr [''home'', ''u'']"
  "uuid_New E_admin = ''9F1C2D3E-0000-4000-8000-000000000001''"
  "reg_add E_admin = (\<lambda>g. (''The operation completed successfully.'', None))"
  "Unmarshal_MachineIDBackup E_admin =
           (\<lambda>s. if s = mid_doc
                then Inr \<lparr>MachineID = ''ffff'', BackupTime = ''2025-01-01T00:00:00Z''\<rparr>
                else Inl (ErrorString ''invalid character''))"
  "time_Parse_RFC3339 E_admin =
           (\<lambda>s. if s = ''2025-01-01T00:00:00Z'' then Inr 63871286400
                else Inl (ErrorString ''cannot parse''))"
  by (simp_all add: E_admin_def E0_def)

lemma E_user_fields:
  "GOOS E_user = ''windows''" "GetRawMachineId E_user = Inr ''0123abcd''"
  "UserHomeDir E_user = Inr [''home'', ''u'']"
  "uuid_New E_user = ''9F1C2D3E-0000-4000-8000-000000000001''"
  "reg_add E_user = (\<lambda>g. (''ERROR: Access is denied.'', Some (ExitError ''exit status 1'')))"
  by (simp_all add: E_user_def E0_def)

lemma new_id: "ToLower E ''9F1C2D3E-0000-4000-8000-000000000001'' = ''9f1c2d3e-0000-4000-8000-000000000001''"
  by (simp add: ToLower_def toLower_def)





lemma ClearSSOCache_store: "ClearSSOCache E_admin fs_store = (None, fs_store)"
  "ClearSSOCache E_user fs_store = (None, fs_store)"
  by (simp_all add: ClearSSOCache_def GetSSOCachePath_def E_admin_fields E_user_fields Stat_def fs_store_def)



text \<open>
  Claim C6. When the hard reset has passed the backup check and cleared the session
  cache and the registry write then fails, the result returned beside the error still
  reports the cleared cache, the old identifier and the new identifier, and reports the
  identifier as not changed. The error is \<open>ErrRequiresAdmin\<close> when the output of the
  failed \<open>reg add\<close> says that access is denied, and the command's own error otherwise.
\<close>

theorem ResetEnvironment_write_fails:
  assumes "GOOS E = ''windows''" and "GetRawMachineId E = Inr old"
    and "skip \<or> IsCurrentMachineIDBackedUp E fs = (True, old, None)"
    and "ClearSSOCache E fs = (None, fs1)"
    and "reg_add E (GenerateNewMachineID E) = (output, Some err)"
  shows "ResetEnvironment E (fs, guid) skip
           = ((Some \<lparr>CacheCleared = True, OldMachineID = old,
                     NewMachineID = GenerateNewMachineID E, MachineIDChanged = False\<rparr>,
               Some (if Contains output access_denied_zh
                        \<or> Contains output ''Access is denied''
                        \<or> Contains output ''ERROR: Access is denied''
                     then ErrRequiresAdmin else err)),
              (fs1, guid))"
  using assms
  by (auto simp: ResetEnvironment_def Let_def SetWindowsMachineID_def
      setWindowsMachineIDNative_def)

theorem ResetEnvironment_write_fails_witness:
  "ResetEnvironment E_user (fs_store, ''0123ABCD'') True
     = ((Some \<lparr>CacheCleared = True, OldMachineID = ''0123abcd'',
               NewMachineID = ''9f1c2d3e-0000-4000-8000-000000000001'',
               MachineIDChanged = False\<rparr>, Some ErrRequiresAdmin),
        (fs_store, ''0123ABCD''))"
proof -
  have g: "GenerateNewMachineID E_user = ''9f1c2d3e-0000-4000-8000-000000000001''"
    by (simp add: GenerateNewMachineID_def E_user_fields new_id)
  have c: "Contains ''ERROR: Access is denied.'' ''Access is denied''"
    by (simp add: Contains_def Index_def)
  have r: "reg_add E_user (GenerateNewMachineID E_user)
             = (''ERROR: Access is denied.'', Some (ExitError ''exit status 1''))"
    by (simp add: E_user_fields)
  from ResetEnvironment_write_fails[OF E_user_fields(1,2) _ ClearSSOCache_store(2) r, of True]
  show ?thesis by (simp add: g c)
qed

section \<open>The snapshot store's claims\<close>

lemma E0_fields:
  "GOOS E0 = ''linux''" "GetRawMachineId E0 = Inr ''0123abcd''"
  "Executable E0 = Inr [''opt'', ''kiro-manager'', ''kiro-manager'']"
  "UserHomeDir E0 = Inr [''home'', ''u'']"
  "Now_RFC3339 E0 = ''2025-01-01T00:00:00Z''"
  "Unmarshal_MachineIDBackup E0 =
           (\<lambda>s. if s = mid_doc
                then Inr \<lparr>MachineID = ''ffff'', BackupTime = ''2025-01-01T00:00:00Z''\<rparr>
                else Inl (ErrorString ''invalid character''))"
  "MarshalIndent_MachineIDBackup E0 = (\<lambda>m. Inr (render_MachineIDBackup m))"
  "Unmarshal_map E0 =
           (\<lambda>s. if s = token_doc1 then Inr (Some token_map1)
                else if s = token_doc2
                then Inr (Some (token_map1(''accessToken'' \<mapsto> JString ''a2'',
                                           ''expiresAt'' \<mapsto> JString ''2025-02-01T00:00:00Z'')))
                else Inl (ErrorString ''invalid character''))"
  "MarshalIndent_map E0 = (\<lambda>m. Inr token_doc2)"
  "time_Parse_RFC3339 E0 =
           (\<lambda>s. if s = ''2025-01-01T00:00:00Z'' then Inr 63871286400
                else Inl (ErrorString ''cannot parse''))"
  by (simp_all add: E0_def)

lemma backups_root_E0: "GetBackupRootPath E0 = Inr [''opt'', ''kiro-manager'', ''backups'']"
  by (simp add: GetBackupRootPath_def E0_fields BackupDirName_def)

lemma valid_names: "valid_name ''work''" "valid_name ''notes.txt''" "valid_name ''a''"
  by (simp_all add: valid_name_def)

lemma ListBackups_E0_store:
  "ListBackups E0 fs_store =
     Inr [\<lparr>Name = ''work'', Path = ''/opt/kiro-manager/backups/work'',
           InfoBackupTime = 63871286400, HasToken = True, HasMachineID = True\<rparr>]"
  by (simp add: ListBackups_def backups_root_E0 fs_store_def Stat_def ReadDir_def
      entry_names_def entry_is_dir_def valid_name_def backup_info_def Join_valid[OF valid_names(1)]
      ReadFile_def KiroAuthTokenFile_def MachineIDFileName_def E0_fields path_string_def
      Let_def)

lemma ListBackups_E0_odd:
  "ListBackups E0 fs_odd =
     Inr [\<lparr>Name = ''work'', Path = ''/opt/kiro-manager/backups/work'',
           InfoBackupTime = 0, HasToken = True, HasMachineID = False\<rparr>]"
  by (simp add: ListBackups_def backups_root_E0 fs_odd_def Stat_def ReadDir_def
      entry_names_def entry_is_dir_def valid_name_def backup_info_def Join_valid[OF valid_names(1)]
      ReadFile_def KiroAuthTokenFile_def MachineIDFileName_def E0_fields path_string_def
      Let_def)



text \<open>
  Claim C7, as amended. \<open>ListBackups\<close> lists every snapshot directory (a directory
  directly under the store's root) exactly once and nothing else. In an entry,
  \<open>HasToken\<close> holds exactly when something, a file or a directory, is at the token path
  (\<open>os.Stat\<close> succeeds), and \<open>HasMachineID\<close> holds exactly when the identifier path can be
  read as a file (\<open>os.ReadFile\<close> succeeds). The backup time is the zero time when the
  identifier file cannot be read, when it does not decode, and when the time it records
  is empty or does not parse; otherwise it is the parsed time.
\<close>

theorem ListBackups_entries:
  assumes "GetBackupRootPath E = Inr rootPath" and "ListBackups E fs = Inr backups"
  shows "distinct (map Name backups)
         \<and> set (map Name backups) = {name. valid_name name \<and> BackupExists E fs name}
         \<and> (\<forall>b\<in>set backups.
               HasToken b = (\<exists>info. Stat fs (rootPath @ [Name b, KiroAuthTokenFile]) = Inr info)
             \<and> HasMachineID b
                 = (\<exists>data. ReadFile fs (rootPath @ [Name b, MachineIDFileName]) = Inr data)
             \<and> InfoBackupTime b
                 = (case ReadFile fs (rootPath @ [Name b, MachineIDFileName]) of
                      Inl e \<Rightarrow> 0
                    | Inr data \<Rightarrow>
                        (case Unmarshal_MachineIDBackup E data of
                           Inl e \<Rightarrow> 0
                         | Inr mid \<Rightarrow>
                             if BackupTime mid = [] then 0
                             else (case time_Parse_RFC3339 E (BackupTime mid) of
                                     Inl e \<Rightarrow> 0 | Inr t \<Rightarrow> t))))"
proof -
  note n = ListBackups_names[OF assms]
  have "HasToken b = (\<exists>info. Stat fs (rootPath @ [Name b, KiroAuthTokenFile]) = Inr info)
      \<and> HasMachineID b
          = (\<exists>data. ReadFile fs (rootPath @ [Name b, MachineIDFileName]) = Inr data)
      \<and> InfoBackupTime b
          = (case ReadFile fs (rootPath @ [Name b, MachineIDFileName]) of
               Inl e \<Rightarrow> 0
             | Inr data \<Rightarrow>
                 (case Unmarshal_MachineIDBackup E data of
                    Inl e \<Rightarrow> 0
                  | Inr mid \<Rightarrow>
                      if BackupTime mid = [] then 0
                      else (case time_Parse_RFC3339 E (BackupTime mid) of
                              Inl e \<Rightarrow> 0 | Inr t \<Rightarrow> t)))"
    if "b \<in> set backups" for b
  proof -
    from n(3) that have b: "b = backup_info E fs rootPath (Name b)" and v: "valid_name (Name b)"
      by auto
    have j: "Join rootPath (Name b) = rootPath @ [Name b]" using Join_valid[OF v] .
    show ?thesis
      using backup_info_HasToken[of E fs rootPath "Name b"]
        backup_info_HasMachineID[of E fs rootPath "Name b"]
        backup_info_time[of E fs rootPath "Name b"]
      unfolding b[symmetric] j by simp
  qed
  with n(1,2) show ?thesis by blast
qed

theorem ListBackups_entries_witness:
  "ListBackups E0 fs_store =
     Inr [\<lparr>Name = ''work'', Path = ''/opt/kiro-manager/backups/work'',
           InfoBackupTime = 63871286400, HasToken = True, HasMachineID = True\<rparr>]
   \<and> {name. valid_name name \<and> BackupExists E0 fs_store name} = {''work''}
   \<and> (\<exists>info. Stat fs_store [''opt'', ''kiro-manager'', ''backups'', ''work'', KiroAuthTokenFile]
                = Inr info)
   \<and> (\<exists>data. ReadFile fs_store [''opt'', ''kiro-manager'', ''backups'', ''work'', MachineIDFileName]
                = Inr data)"
  using ListBackups_entries[OF backups_root_E0 ListBackups_E0_store]
  by (simp add: ListBackups_E0_store)

text \<open>
  The claim as stated fails for a snapshot in which the names of both halves are
  directories: both are present in the same way, and the entry reports a token and no
  identifier.
\<close>

theorem ListBackups_entries_counterexample:
  "ListBackups E0 fs_odd =
     Inr [\<lparr>Name = ''work'', Path = ''/opt/kiro-manager/backups/work'',
           InfoBackupTime = 0, HasToken = True, HasMachineID = False\<rparr>]
   \<and> Stat fs_odd [''opt'', ''kiro-manager'', ''backups'', ''work'', KiroAuthTokenFile] = Inr (Dir [])
   \<and> Stat fs_odd [''opt'', ''kiro-manager'', ''backups'', ''work'', MachineIDFileName] = Inr (Dir [])"
  by (simp add: ListBackups_E0_odd)
    (simp add: Stat_def fs_odd_def KiroAuthTokenFile_def MachineIDFileName_def)

text \<open>
  Claim C10. When nothing is at the path of the store's root, \<open>ListBackups\<close> succeeds
  with the empty list. A plain file directly under the root is not listed, and
  \<open>BackupExists\<close> is false for its name.
\<close>

theorem ListBackups_missing_root:
  assumes "GetBackupRootPath E = Inr rootPath"
  shows "(Stat fs rootPath = Inl ENOENT \<longrightarrow> ListBackups E fs = Inr [])
         \<and> (\<forall>backups name d.
               ListBackups E fs = Inr backups \<and> valid_name name
               \<and> Stat fs (rootPath @ [name]) = Inr (File d) \<longrightarrow>
               name \<notin> set (map Name backups) \<and> \<not> BackupExists E fs name)"
proof (intro conjI impI allI)
  assume "Stat fs rootPath = Inl ENOENT"
  then show "ListBackups E fs = Inr []" using assms by (simp add: ListBackups_def)
next
  fix backups name d
  assume h: "ListBackups E fs = Inr backups \<and> valid_name name
               \<and> Stat fs (rootPath @ [name]) = Inr (File d)"
  then have "\<not> BackupExists E fs name"
    using BackupExists_valid[OF assms, of name fs] by (simp add: Stat_def)
  moreover from h ListBackups_names(2)[OF assms, of fs backups]
  have "name \<in> set (map Name backups) \<Longrightarrow> BackupExists E fs name" by auto
  ultimately show "name \<notin> set (map Name backups)" "\<not> BackupExists E fs name" by auto
qed

theorem ListBackups_missing_root_witness:
  "ListBackups E0 fs_exec = Inr []
   \<and> Stat fs_store [''opt'', ''kiro-manager'', ''backups'', ''notes.txt''] = Inr (File ''x'')
   \<and> ''notes.txt'' \<notin> set (map Name (projr (ListBackups E0 fs_store)))
   \<and> BackupExists E0 fs_store ''notes.txt'' = False"
proof -
  have a: "Stat fs_exec [''opt'', ''kiro-manager'', ''backups''] = Inl ENOENT"
    by (simp add: Stat_def fs_exec_def)
  have b: "Stat fs_store ([''opt'', ''kiro-manager'', ''backups''] @ [''notes.txt'']) = Inr (File ''x'')"
    by (simp add: Stat_def fs_store_def)
  from ListBackups_missing_root[OF backups_root_E0, of fs_exec] a
  have 1: "ListBackups E0 fs_exec = Inr []" by simp
  from ListBackups_missing_root[OF backups_root_E0, of fs_store] ListBackups_E0_store b valid_names(2)
  have 2: "''notes.txt'' \<notin> set (map Name (projr (ListBackups E0 fs_store)))"
    "\<not> BackupExists E0 fs_store ''notes.txt''"
    by (simp_all del: ListBackups_E0_store)
  with 1 b show ?thesis by simp
qed








end
